theory Spec2Isabelle
  imports Main
begin

section \<open>kixport: building fabrication artifacts for KiCad boards\<close>

text \<open>
  The development follows \<^verbatim>\<open>src/kixport.py\<close>. The program reads a configuration,
  derives a \<open>Board\<close> descriptor per configured board and runs a fixed sequence of
  external commands and file operations for it.

  Strings are \<^typ>\<open>string\<close>. Exceptions are values of the type \<open>error\<close>; a function that
  may raise returns a sum (\<open>Inl\<close> the exception) or, when it also changes the world, a pair
  of an optional exception and the world it leaves behind. Standard output is not part of
  the model. The host is a POSIX system.
\<close>

subsection \<open>Exceptions\<close>

datatype error =
    KeyError string
  | ValueError
  | FileNotFoundError
  | FileExistsError
  | IsADirectoryError
  | NotADirectoryError
  | DecodeError
  | TypeError
  | CalledProcessError int "string list"

subsection \<open>Paths\<close>

text \<open>
  A \<^verbatim>\<open>pathlib.Path\<close> on a POSIX host is determined by its root (\<open>''''\<close>, \<open>''/''\<close> or
  \<open>''//''\<close>) and the list of its components. The functions below follow \<^verbatim>\<open>pathlib\<close> and
  \<^verbatim>\<open>posixpath\<close> of CPython 3.12.
\<close>

datatype path = Parsed (path_root: string) (path_tail: "string list")

text \<open>\<^verbatim>\<open>str.split('/')\<close>.\<close>

fun split_sep :: "string \<Rightarrow> string list" where
  "split_sep [] = [[]]"
| "split_sep (c # cs) =
     (if c = CHR ''/'' then [] # split_sep cs
      else (case split_sep cs of [] \<Rightarrow> [[c]] | x # xs \<Rightarrow> (c # x) # xs))"

text \<open>\<^verbatim>\<open>posixpath.splitroot\<close>, without the drive, which is always empty.\<close>

definition splitroot :: "string \<Rightarrow> string \<times> string" where
  "splitroot p =
     (if take 1 p \<noteq> ''/'' then ([], p)
      else if take 1 (drop 1 p) \<noteq> ''/'' \<or> take 1 (drop 2 p) = ''/'' then (''/'', drop 1 p)
      else (take 2 p, drop 2 p))"

text \<open>\<^verbatim>\<open>pathlib.Path(s)\<close>: \<^verbatim>\<open>PurePath._parse_path\<close>.\<close>

definition Path :: "string \<Rightarrow> path" where
  "Path s =
     (if s = [] then Parsed [] []
      else (case splitroot s of
              (root, rel) \<Rightarrow> Parsed root (filter (\<lambda>x. x \<noteq> [] \<and> x \<noteq> ''.'') (split_sep rel))))"

text \<open>\<^verbatim>\<open>'/'.join(xs)\<close>.\<close>

fun join_sep :: "string list \<Rightarrow> string" where
  "join_sep [] = []"
| "join_sep [x] = x"
| "join_sep (x # y # ys) = x @ ''/'' @ join_sep (y # ys)"

text \<open>\<^verbatim>\<open>str(p)\<close>, which is also what \<^verbatim>\<open>subprocess\<close> passes for a path argument.\<close>

definition path_str :: "path \<Rightarrow> string" where
  "path_str p =
     (if path_root p \<noteq> [] then path_root p @ join_sep (path_tail p)
      else if path_tail p = [] then ''.''
      else join_sep (path_tail p))"

text \<open>\<^verbatim>\<open>p.name\<close>, \<^verbatim>\<open>p.parent\<close>.\<close>

definition path_name :: "path \<Rightarrow> string" where
  "path_name p = (if path_tail p = [] then [] else last (path_tail p))"

definition path_parent :: "path \<Rightarrow> path" where
  "path_parent p = (if path_tail p = [] then p else Parsed (path_root p) (butlast (path_tail p)))"

text \<open>\<^verbatim>\<open>s.rfind(c)\<close>: the last index of \<open>c\<close>, or \<open>-1\<close>.\<close>

definition rfind :: "string \<Rightarrow> char \<Rightarrow> int" where
  "rfind s c =
     (if c \<in> set s then int (length s) - 1 - int (length (takeWhile (\<lambda>x. x \<noteq> c) (rev s)))
      else - 1)"

text \<open>\<^verbatim>\<open>p.suffix\<close> and \<^verbatim>\<open>p.stem\<close>.\<close>

definition path_suffix :: "path \<Rightarrow> string" where
  "path_suffix p =
     (let name = path_name p; i = rfind name CHR ''.''
      in if 0 < i \<and> i < int (length name) - 1 then drop (nat i) name else [])"

definition path_stem :: "path \<Rightarrow> string" where
  "path_stem p =
     (let name = path_name p; i = rfind name CHR ''.''
      in if 0 < i \<and> i < int (length name) - 1 then take (nat i) name else name)"

text \<open>\<^verbatim>\<open>p.with_suffix(suffix)\<close>; it raises \<^verbatim>\<open>ValueError\<close> on an invalid suffix and on a
  path with an empty name.\<close>

definition with_suffix :: "path \<Rightarrow> string \<Rightarrow> error + path" where
  "with_suffix p suffix =
     (if CHR ''/'' \<in> set suffix then Inl ValueError
      else if (suffix \<noteq> [] \<and> take 1 suffix \<noteq> ''.'') \<or> suffix = ''.'' then Inl ValueError
      else let name = path_name p in
        if name = [] then Inl ValueError
        else let old_suffix = path_suffix p;
                 name' = (if old_suffix = [] then name @ suffix
                          else take (length name - length old_suffix) name @ suffix)
             in Inr (Parsed (path_root p) (butlast (path_tail p) @ [name'])))"

text \<open>\<^verbatim>\<open>p / s\<close> for a string \<open>s\<close>: an anchored right operand replaces the left one.\<close>

definition path_join :: "path \<Rightarrow> string \<Rightarrow> path" where
  "path_join p s =
     (let q = Path s
      in if path_root q \<noteq> [] then q else Parsed (path_root p) (path_tail p @ path_tail q))"

subsection \<open>Configuration and board descriptor\<close>

text \<open>
  The configuration is the document \<^verbatim>\<open>yaml.safe_load\<close> returns. A mapping is represented
  by a record of the keys the program reads. A key the program subscripts or reads with
  \<^verbatim>\<open>get\<close> and whose absence the development studies is an option (\<open>None\<close>: the key is absent).
  What such a key of a board or of the settings holds is a string, null, or any other
  document, which is represented by the text \<^verbatim>\<open>str()\<close> makes of it. The keys of the output
  specifications and of a variant are taken to be present, and to hold strings or Booleans.
\<close>

datatype yaml = YStr string | YNull | YOther string

text \<open>\<^verbatim>\<open>str(v)\<close>, which is how an f-string formats \<open>v\<close>; and \<^verbatim>\<open>pathlib.Path(v)\<close>, which
  raises \<^verbatim>\<open>TypeError\<close> unless \<open>v\<close> is a string.\<close>

definition py_str :: "yaml \<Rightarrow> string" where
  "py_str v = (case v of YStr s \<Rightarrow> s | YNull \<Rightarrow> ''None'' | YOther s \<Rightarrow> s)"

definition pathlib_Path :: "yaml \<Rightarrow> error + path" where
  "pathlib_Path v = (case v of YStr s \<Rightarrow> Inr (Path s) | _ \<Rightarrow> Inl TypeError)"

record variant =
  variant_name :: "string option"
  variant_variant :: "string option"

record fab =
  fab_name :: string
  fab_layers :: string
  fab_mirror :: "bool option"
  fab_include_border_title :: bool

record bom =
  bom_ini :: string
  bom_formats :: "string list"
  bom_file_id :: string

record settings =
  settings_assembly_dir :: "yaml option"
  settings_build_dir :: "yaml option"
  outputs_fab :: "fab list"
  outputs_kibom :: "bom list"

record board_yaml =
  yaml_name :: "yaml option"
  yaml_kicad_pro :: "yaml option"
  yaml_variants :: "variant list option"

record Board =
  name :: yaml
  kicad_pro :: path
  kicad_sch :: path
  kicad_pcb :: path
  assembly_dir :: path
  build_dir :: path
  variants :: "variant list option"

text \<open>\<^verbatim>\<open>Board.from_yaml\<close>. The keyword arguments are evaluated in the order written.\<close>

definition from_yaml :: "board_yaml \<Rightarrow> settings \<Rightarrow> error + Board" where
  "from_yaml board settings =
     (case yaml_kicad_pro board of
        None \<Rightarrow> Inl (KeyError ''kicad_pro'')
      | Some v \<Rightarrow>
     (case pathlib_Path v of
        Inl e \<Rightarrow> Inl e
      | Inr pro \<Rightarrow>
     (case yaml_name board of
        None \<Rightarrow> Inl (KeyError ''name'')
      | Some nm \<Rightarrow>
     (case with_suffix pro ''.kicad_sch'' of
        Inl e \<Rightarrow> Inl e
      | Inr sch \<Rightarrow>
     (case with_suffix pro ''.kicad_pcb'' of
        Inl e \<Rightarrow> Inl e
      | Inr pcb \<Rightarrow>
     (case settings_assembly_dir settings of
        None \<Rightarrow> Inl (KeyError ''assembly_dir'')
      | Some ad \<Rightarrow>
     (case settings_build_dir settings of
        None \<Rightarrow> Inl (KeyError ''build_dir'')
      | Some bd \<Rightarrow>
          Inr \<lparr>name = nm, kicad_pro = pro, kicad_sch = sch, kicad_pcb = pcb,
               assembly_dir = Path (py_str ad @ ''/'' @ py_str nm),
               build_dir = Path (py_str bd @ ''/'' @ py_str nm),
               variants = yaml_variants board\<rparr>)))))))"

subsection \<open>The world: file system and external programs\<close>

text \<open>
  A file is kept at the level at which the program's libraries present it. A text file is
  represented by the rows of cells it holds as a CSV document, cell for cell as they are
  stored, and by the document \<^verbatim>\<open>json.load\<close> makes of it, if it is a JSON text; every text
  file has rows, so \<^verbatim>\<open>csv.reader\<close> reads every text file. The other files are a PDF with its
  pages, a zip archive with its members (a member without data is a directory entry), or
  binary data, and reading one of them as text raises \<open>DecodeError\<close>, as does a text that is
  not a JSON text for \<^verbatim>\<open>json.load\<close> and a file that is not a PDF for the PDF reader. The
  rows \<^verbatim>\<open>csv.writer\<close> has written to a file are the rows of that file. A directory holds the
  names of its entries, which are taken to be real entry names (not empty, without \<^verbatim>\<open>/\<close>,
  neither \<^verbatim>\<open>.\<close> nor \<^verbatim>\<open>..\<close>). The file system maps a path, as \<^verbatim>\<open>pathlib\<close> writes it, to its
  node; symbolic links, failures of the operating system other than a missing node or a
  node of the wrong kind, and the errors of the \<^verbatim>\<open>csv\<close> module are outside the model.
\<close>

datatype json = JStr string | JObj "(string \<times> json) list" | JOther

datatype content =
    Text "string list list" "json option"
  | Pdf "string list"
  | Zip "(string \<times> content option) list"
  | Binary string

datatype node = File content | Dir "string list"

type_synonym fs = "path \<Rightarrow> node option"

text \<open>The world is the file system and, as an observation, the argument vector and the exit
  status of every process started so far, oldest first.\<close>

record world =
  files :: fs
  trace :: "(string list \<times> int) list"

text \<open>
  The external programs are a parameter: started with an argument vector in a world, a
  program leaves an exit status and a file system. So is \<^verbatim>\<open>Path.resolve\<close>, which depends on
  the working directory.
\<close>

record host =
  tool :: "string list \<Rightarrow> world \<Rightarrow> int \<times> fs"
  resolve :: "path \<Rightarrow> path"

type_synonym step = "world \<Rightarrow> error option \<times> world"

text \<open>A \<^verbatim>\<open>for\<close> loop whose body may raise, and a sequence of statements.\<close>

fun for_each :: "'a list \<Rightarrow> ('a \<Rightarrow> step) \<Rightarrow> step" where
  "for_each [] body w = (None, w)"
| "for_each (x # xs) body w =
     (case body x w of
        (None, w') \<Rightarrow> for_each xs body w'
      | (Some e, w') \<Rightarrow> (Some e, w'))"

definition run_all :: "step list \<Rightarrow> step" where
  "run_all steps = for_each steps (\<lambda>s. s)"

text \<open>\<^verbatim>\<open>subprocess.check_call(cmd)\<close>.\<close>

definition check_call :: "host \<Rightarrow> string list \<Rightarrow> step" where
  "check_call h cmd w =
     (case tool h cmd w of
        (status, fs') \<Rightarrow>
          (if status = 0 then None else Some (CalledProcessError status cmd),
           \<lparr>files = fs', trace = trace w @ [(cmd, status)]\<rparr>))"

text \<open>Opening a file for reading; creating or truncating a file and writing \<open>c\<close> to it.\<close>

definition open_r :: "fs \<Rightarrow> path \<Rightarrow> error + content" where
  "open_r fs p =
     (case fs p of
        Some (File c) \<Rightarrow> Inr c
      | Some (Dir _) \<Rightarrow> Inl IsADirectoryError
      | None \<Rightarrow>
          (case fs (path_parent p) of
             Some (File _) \<Rightarrow> Inl NotADirectoryError
           | _ \<Rightarrow> Inl FileNotFoundError))"

definition link :: "string \<Rightarrow> string list \<Rightarrow> string list" where
  "link n names = (if n \<in> set names then names else names @ [n])"

definition open_w :: "path \<Rightarrow> content \<Rightarrow> fs \<Rightarrow> error + fs" where
  "open_w p c fs =
     (case fs (path_parent p) of
        None \<Rightarrow> Inl FileNotFoundError
      | Some (File _) \<Rightarrow> Inl NotADirectoryError
      | Some (Dir names) \<Rightarrow>
          (case fs p of
             Some (Dir _) \<Rightarrow> Inl IsADirectoryError
           | Some (File _) \<Rightarrow> Inr (fs(p \<mapsto> File c))
           | None \<Rightarrow> Inr (fs(path_parent p \<mapsto> Dir (link (path_name p) names), p \<mapsto> File c))))"

text \<open>\<^verbatim>\<open>os.mkdir\<close> and \<^verbatim>\<open>os.makedirs(name, exist_ok=True)\<close>.\<close>

definition mkdir :: "path \<Rightarrow> fs \<Rightarrow> error + fs" where
  "mkdir p fs =
     (case fs (path_parent p) of
        None \<Rightarrow> Inl FileNotFoundError
      | Some (File _) \<Rightarrow> Inl NotADirectoryError
      | Some (Dir names) \<Rightarrow>
          (case fs p of
             Some _ \<Rightarrow> Inl FileExistsError
           | None \<Rightarrow> Inr (fs(path_parent p \<mapsto> Dir (link (path_name p) names), p \<mapsto> Dir []))))"

definition isdir :: "fs \<Rightarrow> path \<Rightarrow> bool" where
  "isdir fs p = (case fs p of Some (Dir _) \<Rightarrow> True | _ \<Rightarrow> False)"

definition mkdir_exist_ok :: "path \<Rightarrow> fs \<Rightarrow> error option \<times> fs" where
  "mkdir_exist_ok p fs =
     (case mkdir p fs of
        Inr fs' \<Rightarrow> (None, fs')
      | Inl e \<Rightarrow> (if isdir fs p then (None, fs) else (Some e, fs)))"

text \<open>The recursion of \<^verbatim>\<open>os.makedirs\<close> on the head of the path, with the components of the
  path in reverse order.\<close>

fun makedirs_rev :: "string \<Rightarrow> string list \<Rightarrow> fs \<Rightarrow> error option \<times> fs" where
  "makedirs_rev r [] fs = mkdir_exist_ok (Parsed r []) fs"
| "makedirs_rev r (c # heads) fs =
     (if (r \<noteq> [] \<or> heads \<noteq> []) \<and> fs (Parsed r (rev heads)) = None
      then (case makedirs_rev r heads fs of
              (None, fs') \<Rightarrow> mkdir_exist_ok (Parsed r (rev (c # heads))) fs'
            | (Some FileExistsError, fs') \<Rightarrow> mkdir_exist_ok (Parsed r (rev (c # heads))) fs'
            | (Some e, fs') \<Rightarrow> (Some e, fs'))
      else mkdir_exist_ok (Parsed r (rev (c # heads))) fs)"

definition makedirs :: "path \<Rightarrow> step" where
  "makedirs p w =
     (case makedirs_rev (path_root p) (rev (path_tail p)) (files w) of
        (e, fs') \<Rightarrow> (e, w\<lparr>files := fs'\<rparr>))"

text \<open>\<^verbatim>\<open>Path.iterdir\<close>.\<close>

definition iterdir :: "fs \<Rightarrow> path \<Rightarrow> error + path list" where
  "iterdir fs d =
     (case fs d of
        None \<Rightarrow> Inl FileNotFoundError
      | Some (File _) \<Rightarrow> Inl NotADirectoryError
      | Some (Dir names) \<Rightarrow> Inr (map (\<lambda>n. Parsed (path_root d) (path_tail d @ [n])) names))"

subsection \<open>The steps of the pipeline\<close>

text \<open>\<^verbatim>\<open>js[key]\<close> on a loaded JSON document.\<close>

definition subscript :: "json \<Rightarrow> string \<Rightarrow> error + json" where
  "subscript js key =
     (case js of
        JObj kvs \<Rightarrow> (case map_of kvs key of None \<Rightarrow> Inl (KeyError key) | Some v \<Rightarrow> Inr v)
      | _ \<Rightarrow> Inl TypeError)"

definition read_version :: "path \<Rightarrow> world \<Rightarrow> error + json" where
  "read_version board_pro w =
     (case open_r (files w) board_pro of
        Inl e \<Rightarrow> Inl e
      | Inr (Text _ (Some js)) \<Rightarrow>
          (case subscript js ''text_variables'' of
             Inl e \<Rightarrow> Inl e
           | Inr tv \<Rightarrow> subscript tv ''VERSION'')
      | Inr _ \<Rightarrow> Inl DecodeError)"

definition mk_bom_xml :: "host \<Rightarrow> path \<Rightarrow> path \<Rightarrow> step" where
  "mk_bom_xml h board_sch bom_filename =
     check_call h [''kicad-cli'', ''sch'', ''export'', ''python-bom'', ''-o'',
                   path_str bom_filename, path_str board_sch]"

definition mk_schematic_pdf :: "host \<Rightarrow> path \<Rightarrow> path \<Rightarrow> step" where
  "mk_schematic_pdf h board_sch pdf_filename =
     check_call h [''kicad-cli'', ''sch'', ''export'', ''pdf'', ''-o'',
                   path_str pdf_filename, path_str board_sch]"

definition mk_gerber :: "host \<Rightarrow> path \<Rightarrow> path \<Rightarrow> step" where
  "mk_gerber h board_pcb gerber_dir =
     run_all
       [makedirs gerber_dir,
        check_call h [''kicad-cli'', ''pcb'', ''export'', ''gerbers'', ''-o'', path_str gerber_dir,
                      ''--use-drill-file-origin'', path_str board_pcb],
        check_call h [''kicad-cli'', ''pcb'', ''export'', ''drill'', ''-o'',
                      path_str gerber_dir @ ''/'', path_str board_pcb]]"

text \<open>
  \<^verbatim>\<open>zip.write(file_path, arcname=file_path.name)\<close>: a directory becomes a directory entry
  \<^verbatim>\<open>name/\<close> without data, a file a member with its data.
\<close>

definition zip_write :: "fs \<Rightarrow> path \<Rightarrow> error + string \<times> content option" where
  "zip_write fs file_path =
     (case fs file_path of
        None \<Rightarrow> Inl FileNotFoundError
      | Some (Dir _) \<Rightarrow> Inr (path_name file_path @ ''/'', None)
      | Some (File c) \<Rightarrow> Inr (path_name file_path, Some c))"

fun zip_loop ::
  "fs \<Rightarrow> path list \<Rightarrow> (string \<times> content option) list
     \<Rightarrow> error option \<times> (string \<times> content option) list" where
  "zip_loop fs [] archive = (None, archive)"
| "zip_loop fs (file_path # rest) archive =
     (case zip_write fs file_path of
        Inl e \<Rightarrow> (Some e, archive)
      | Inr m \<Rightarrow> zip_loop fs rest (archive @ [m]))"

text \<open>
  \<^verbatim>\<open>mk_gerber_zip\<close>: the archive is created empty when it is opened, before the directory is
  listed, and it is closed with the members written so far when the loop raises.
\<close>

definition mk_gerber_zip :: "path \<Rightarrow> path \<Rightarrow> step" where
  "mk_gerber_zip gerber_dir gerber_zip w =
     (case open_w gerber_zip (Zip []) (files w) of
        Inl e \<Rightarrow> (Some e, w)
      | Inr fs1 \<Rightarrow>
          (case iterdir fs1 gerber_dir of
             Inl e \<Rightarrow> (Some e, w\<lparr>files := fs1\<rparr>)
           | Inr entries \<Rightarrow>
               (case zip_loop fs1 entries [] of
                  (e, archive) \<Rightarrow>
                    (e, w\<lparr>files := fs1(gerber_zip \<mapsto> File (Zip archive))\<rparr>))))"

text \<open>\<^verbatim>\<open>run_kibom\<close>: the command it builds, and its call. The selector is passed when it is
  neither \<^verbatim>\<open>None\<close> nor empty.\<close>

definition run_kibom_cmd :: "host \<Rightarrow> path \<Rightarrow> string \<Rightarrow> string option \<Rightarrow> path \<Rightarrow> string list" where
  "run_kibom_cmd h board_bom_xml ini_filename variant bom_filename =
     (let bom_dir = resolve h (path_parent bom_filename)
      in [''kibom'', ''--cfg'', ini_filename, ''-d'', path_str bom_dir]
         @ (case variant of
              None \<Rightarrow> []
            | Some v \<Rightarrow> if v = [] then [] else [''-r'', v])
         @ [path_str board_bom_xml, path_name bom_filename])"

definition run_kibom :: "host \<Rightarrow> path \<Rightarrow> string \<Rightarrow> string option \<Rightarrow> path \<Rightarrow> step" where
  "run_kibom h board_bom_xml ini_filename variant bom_filename =
     check_call h (run_kibom_cmd h board_bom_xml ini_filename variant bom_filename)"

text \<open>\<^verbatim>\<open>mk_fab_pdf\<close>: the loop over the fabrication specifications carries the pages the
  writer holds.\<close>

definition PdfReader :: "fs \<Rightarrow> path \<Rightarrow> error + string list" where
  "PdfReader fs p =
     (case open_r fs p of
        Inl e \<Rightarrow> Inl e
      | Inr (Pdf pages) \<Rightarrow> Inr pages
      | Inr _ \<Rightarrow> Inl DecodeError)"

definition fab_pdf_file :: "Board \<Rightarrow> fab \<Rightarrow> path" where
  "fab_pdf_file board fab =
     path_join (build_dir board) (py_str (name board) @ ''-fab-'' @ fab_name fab @ ''.pdf'')"

definition fab_cmd :: "Board \<Rightarrow> fab \<Rightarrow> string list" where
  "fab_cmd board fab =
     [''kicad-cli'', ''pcb'', ''export'', ''pdf'', ''--output'', path_str (fab_pdf_file board fab),
      ''--layers'', fab_layers fab, path_str (kicad_pcb board)]
     @ (if fab_mirror fab = Some True then [''--mirror''] else [])
     @ (if fab_include_border_title fab then [''--include-border-title''] else [])"

fun fab_loop ::
  "host \<Rightarrow> Board \<Rightarrow> fab list \<Rightarrow> string list \<Rightarrow> world \<Rightarrow> (error + string list) \<times> world" where
  "fab_loop h board [] writer w = (Inr writer, w)"
| "fab_loop h board (fab # rest) writer w =
     (case check_call h (fab_cmd board fab) w of
        (Some e, w') \<Rightarrow> (Inl e, w')
      | (None, w') \<Rightarrow>
          (case PdfReader (files w') (fab_pdf_file board fab) of
             Inl e \<Rightarrow> (Inl e, w')
           | Inr reader \<Rightarrow> fab_loop h board rest (writer @ reader) w'))"

definition mk_fab_pdf :: "host \<Rightarrow> Board \<Rightarrow> settings \<Rightarrow> path \<Rightarrow> step" where
  "mk_fab_pdf h board settings fab_filename w =
     (case fab_loop h board (outputs_fab settings) [] w of
        (Inl e, w') \<Rightarrow> (Some e, w')
      | (Inr writer, w') \<Rightarrow>
          (case open_w fab_filename (Pdf writer) (files w') of
             Inl e \<Rightarrow> (Some e, w')
           | Inr fs' \<Rightarrow> (None, w'\<lparr>files := fs'\<rparr>)))"

definition mk_step :: "host \<Rightarrow> Board \<Rightarrow> settings \<Rightarrow> path \<Rightarrow> step" where
  "mk_step h board settings step_path =
     check_call h [''kicad-cli'', ''pcb'', ''export'', ''step'', ''--subst-models'', ''--output'',
                   path_str step_path, path_str (kicad_pcb board)]"

definition mk_pos :: "host \<Rightarrow> Board \<Rightarrow> settings \<Rightarrow> path \<Rightarrow> step" where
  "mk_pos h board settings pos_path =
     check_call h [''kicad-cli'', ''pcb'', ''export'', ''pos'', ''--units'', ''mm'', ''--output'',
                   path_str pos_path, path_str (kicad_pcb board), ''--format'',
                   drop 1 (path_suffix pos_path)]"

text \<open>
  A file opened in text mode without \<^verbatim>\<open>newline=''\<close> is read with universal newlines: a
  carriage return followed by a line feed, and a carriage return alone, are read as a line
  feed. Between the cells of a CSV document these end a row; within a cell they are part
  of what \<^verbatim>\<open>csv.reader\<close> yields for the cell.
\<close>

fun universal_newlines :: "string \<Rightarrow> string" where
  "universal_newlines [] = []"
| "universal_newlines [a] = (if a = CHR 0x0D then [CHR 0x0A] else [a])"
| "universal_newlines (a # b # s) =
     (if a = CHR 0x0D \<and> b = CHR 0x0A then CHR 0x0A # universal_newlines s
      else if a = CHR 0x0D then CHR 0x0A # universal_newlines (b # s)
      else a # universal_newlines (b # s))"

text \<open>
  \<^verbatim>\<open>mk_pos_jlcpcb\<close>. Both files are opened, in text mode, before anything is read, so the
  output is created or truncated first; \<^verbatim>\<open>next(input, None)\<close> skips a row when there is one.
  On a POSIX host writing in text mode changes nothing.
\<close>

definition jlcpcb_header :: "string list" where
  "jlcpcb_header =
     [''Designator'', ''Val'', ''Package'', ''Mid X'', ''Mid y'', ''Rotation'', ''Layer'']"

definition csv_reader :: "fs \<Rightarrow> path \<Rightarrow> error + string list list" where
  "csv_reader fs p =
     (case fs p of
        Some (File (Text rows _)) \<Rightarrow> Inr (map (map universal_newlines) rows)
      | _ \<Rightarrow> Inl DecodeError)"

definition mk_pos_jlcpcb :: "Board \<Rightarrow> settings \<Rightarrow> path \<Rightarrow> path \<Rightarrow> step" where
  "mk_pos_jlcpcb board settings pos_path jlcpcb_path w =
     (case open_r (files w) pos_path of
        Inl e \<Rightarrow> (Some e, w)
      | Inr _ \<Rightarrow>
          (case open_w jlcpcb_path (Text [] None) (files w) of
             Inl e \<Rightarrow> (Some e, w)
           | Inr fs1 \<Rightarrow>
               (case csv_reader fs1 pos_path of
                  Inl e \<Rightarrow> (Some e, w\<lparr>files := fs1\<rparr>)
                | Inr input \<Rightarrow>
                    (let rest = (case input of [] \<Rightarrow> [] | _ # rows \<Rightarrow> rows)
                     in (None,
                         w\<lparr>files := fs1(jlcpcb_path \<mapsto>
                                          File (Text (jlcpcb_header # rest) None))\<rparr>)))))"

subsection \<open>Building a board\<close>

text \<open>The name of a BOM file, and the loops of \<^verbatim>\<open>build_board\<close> over the BOM specifications,
  their formats and the variants of the board.\<close>

definition bom_filename :: "Board \<Rightarrow> bom \<Rightarrow> string \<Rightarrow> variant \<Rightarrow> string" where
  "bom_filename board bom format variant =
     (case variant_variant variant of
        Some v \<Rightarrow> py_str (name board) @ ''-'' @ v @ ''-'' @ bom_file_id bom @ ''.'' @ format
      | None \<Rightarrow> py_str (name board) @ ''-'' @ bom_file_id bom @ ''.'' @ format)"

definition variants_or_default :: "Board \<Rightarrow> variant list" where
  "variants_or_default board =
     (case variants board of
        None \<Rightarrow> [\<lparr>variant_name = None, variant_variant = None\<rparr>]
      | Some [] \<Rightarrow> [\<lparr>variant_name = None, variant_variant = None\<rparr>]
      | Some vs \<Rightarrow> vs)"

definition build_board_kibom :: "host \<Rightarrow> Board \<Rightarrow> settings \<Rightarrow> path \<Rightarrow> step" where
  "build_board_kibom h board settings board_bom_xml =
     for_each (outputs_kibom settings) (\<lambda>bom.
       for_each (bom_formats bom) (\<lambda>format.
         for_each (variants_or_default board) (\<lambda>variant.
           run_kibom h board_bom_xml (bom_ini bom) (variant_variant variant)
             (path_join (assembly_dir board) (bom_filename board bom format variant)))))"

definition gerber_dir_of :: "Board \<Rightarrow> path" where
  "gerber_dir_of board = path_join (build_dir board) (py_str (name board) @ ''-gerber'')"

definition gerber_zip_of :: "Board \<Rightarrow> path" where
  "gerber_zip_of board = path_join (assembly_dir board) (py_str (name board) @ ''-gerber.zip'')"

definition board_bom_xml_of :: "Board \<Rightarrow> path" where
  "board_bom_xml_of board = path_join (build_dir board) (py_str (name board) @ ''-bom.xml'')"

definition pos_path_of :: "Board \<Rightarrow> path" where
  "pos_path_of board = path_join (build_dir board) (py_str (name board) @ ''-pos.csv'')"

text \<open>The statements of \<^verbatim>\<open>build_board\<close>, in order.\<close>

definition build_board_steps :: "host \<Rightarrow> Board \<Rightarrow> settings \<Rightarrow> step list" where
  "build_board_steps h board settings =
     [\<lambda>w. (case read_version (kicad_pro board) w of
              Inl e \<Rightarrow> (Some e, w)
            | Inr board_version \<Rightarrow> (None, w)),
      makedirs (assembly_dir board),
      makedirs (build_dir board),
      mk_schematic_pdf h (kicad_sch board)
        (path_join (assembly_dir board) (py_str (name board) @ ''-schematic.pdf'')),
      mk_gerber h (kicad_pcb board) (gerber_dir_of board),
      mk_gerber_zip (gerber_dir_of board) (gerber_zip_of board),
      mk_bom_xml h (kicad_sch board) (board_bom_xml_of board),
      build_board_kibom h board settings (board_bom_xml_of board),
      mk_fab_pdf h board settings (path_join (assembly_dir board) (py_str (name board) @ ''-fab.pdf'')),
      mk_step h board settings (path_join (assembly_dir board) (py_str (name board) @ ''.step'')),
      mk_pos h board settings (pos_path_of board),
      mk_pos_jlcpcb board settings (pos_path_of board)
        (path_join (assembly_dir board) (py_str (name board) @ ''-jlcpcb-cpl.csv''))]"

definition build_board :: "host \<Rightarrow> Board \<Rightarrow> settings \<Rightarrow> step" where
  "build_board h board settings = run_all (build_board_steps h board settings)"

text \<open>\<^verbatim>\<open>main\<close>, from the loaded configuration on.\<close>

record config =
  config_settings :: settings
  config_boards :: "board_yaml list"

definition main :: "host \<Rightarrow> config \<Rightarrow> step" where
  "main h config =
     for_each (config_boards config) (\<lambda>board w.
       (case from_yaml board (config_settings config) of
          Inl e \<Rightarrow> (Some e, w)
        | Inr b \<Rightarrow> build_board h b (config_settings config) w))"

subsection \<open>Notions used in the statements\<close>

text \<open>The path \<open>p\<close> with only its extension replaced by \<open>s\<close>.\<close>

definition replaced_suffix :: "path \<Rightarrow> string \<Rightarrow> path" where
  "replaced_suffix p s = Parsed (path_root p) (butlast (path_tail p) @ [path_stem p @ s])"

text \<open>The archive member that stands for the entry \<open>n\<close> of the directory \<open>d\<close>: a file under
  its own name with its data, anything else as the directory entry \<^verbatim>\<open>n/\<close>.\<close>

definition member_of :: "fs \<Rightarrow> path \<Rightarrow> string \<Rightarrow> string \<times> content option" where
  "member_of fs d n =
     (case fs (Parsed (path_root d) (path_tail d @ [n])) of
        Some (File c) \<Rightarrow> (n, Some c)
      | _ \<Rightarrow> (n @ ''/'', None))"


text \<open>The world after the processes \<open>cmds\<close> have run one after the other, each started in the
  world the one before it has left.\<close>

fun after_processes :: "host \<Rightarrow> string list list \<Rightarrow> world \<Rightarrow> world" where
  "after_processes h [] w = w"
| "after_processes h (cmd # cmds) w =
     after_processes h cmds
       \<lparr>files = snd (tool h cmd w), trace = trace w @ [(cmd, fst (tool h cmd w))]\<rparr>"






text \<open>The BOM generator commands as \<^verbatim>\<open>build_board\<close> builds them.\<close>

definition kibom_cmds :: "host \<Rightarrow> Board \<Rightarrow> settings \<Rightarrow> path \<Rightarrow> string list list" where
  "kibom_cmds h board settings board_bom_xml =
     concat (map (\<lambda>bom.
       concat (map (\<lambda>format.
         map (\<lambda>variant.
           run_kibom_cmd h board_bom_xml (bom_ini bom) (variant_variant variant)
             (path_join (assembly_dir board) (bom_filename board bom format variant)))
           (variants_or_default board))
         (bom_formats bom)))
       (outputs_kibom settings))"

text \<open>The commands of a complete build of a board, and of a complete run over the boards
  of a configuration, in the order in which they are started.\<close>

definition build_board_plan :: "host \<Rightarrow> Board \<Rightarrow> settings \<Rightarrow> string list list" where
  "build_board_plan h board settings =
     [[''kicad-cli'', ''sch'', ''export'', ''pdf'', ''-o'',
       path_str (path_join (assembly_dir board) (py_str (name board) @ ''-schematic.pdf'')),
       path_str (kicad_sch board)],
      [''kicad-cli'', ''pcb'', ''export'', ''gerbers'', ''-o'',
       path_str (path_join (build_dir board) (py_str (name board) @ ''-gerber'')),
       ''--use-drill-file-origin'', path_str (kicad_pcb board)],
      [''kicad-cli'', ''pcb'', ''export'', ''drill'', ''-o'',
       path_str (path_join (build_dir board) (py_str (name board) @ ''-gerber'')) @ ''/'',
       path_str (kicad_pcb board)],
      [''kicad-cli'', ''sch'', ''export'', ''python-bom'', ''-o'',
       path_str (path_join (build_dir board) (py_str (name board) @ ''-bom.xml'')),
       path_str (kicad_sch board)]]
     @ kibom_cmds h board settings
         (path_join (build_dir board) (py_str (name board) @ ''-bom.xml''))
     @ map (fab_cmd board) (outputs_fab settings)
     @ [[''kicad-cli'', ''pcb'', ''export'', ''step'', ''--subst-models'', ''--output'',
         path_str (path_join (assembly_dir board) (py_str (name board) @ ''.step'')),
         path_str (kicad_pcb board)],
        [''kicad-cli'', ''pcb'', ''export'', ''pos'', ''--units'', ''mm'', ''--output'',
         path_str (path_join (build_dir board) (py_str (name board) @ ''-pos.csv'')),
         path_str (kicad_pcb board), ''--format'',
         drop 1 (path_suffix
                   (path_join (build_dir board) (py_str (name board) @ ''-pos.csv'')))]]"

definition main_plan :: "host \<Rightarrow> config \<Rightarrow> string list list" where
  "main_plan h config =
     concat (map (\<lambda>board.
       (case from_yaml board (config_settings config) of
          Inl _ \<Rightarrow> []
        | Inr b \<Rightarrow> build_board_plan h b (config_settings config)))
       (config_boards config))"

text \<open>The exception of a process that exited with a status other than 0.\<close>

definition is_cpe :: "error \<Rightarrow> bool" where
  "is_cpe e = (case e of CalledProcessError _ _ \<Rightarrow> True | _ \<Rightarrow> False)"

text \<open>
  A run of a statement from the world \<open>w\<close> that raises \<open>e\<close> in the world \<open>w'\<close> is aborted
  along the commands \<open>cs\<close> when it has started the commands of \<open>cs\<close> in order, each once, up
  to some point, and nothing else. If \<open>e\<close> is the exception of a process, that process is
  the command at this point, it is the last one started, its exit status is not 0, all
  processes before it have exited with status 0, and the file system is as that process
  has left it. If \<open>e\<close> is another exception, every process started has exited with
  status 0.
\<close>

definition aborted :: "host \<Rightarrow> string list list \<Rightarrow> world \<Rightarrow> error \<Rightarrow> world \<Rightarrow> bool" where
  "aborted h cs w e w' \<longleftrightarrow>
     (\<exists>k \<le> length cs.
        (is_cpe e \<longrightarrow>
           k < length cs \<and>
           (\<exists>c. e = CalledProcessError c (cs ! k) \<and> c \<noteq> 0 \<and>
              trace w' = trace w @ map (\<lambda>a. (a, 0)) (take k cs) @ [(cs ! k, c)] \<and>
              (\<exists>wb. trace wb = trace w @ map (\<lambda>a. (a, 0)) (take k cs) \<and>
                 tool h (cs ! k) wb = (c, files w')))) \<and>
        (\<not> is_cpe e \<longrightarrow> trace w' = trace w @ map (\<lambda>a. (a, 0)) (take k cs)))"

text \<open>
  A statement follows the commands \<open>cs\<close> when every run of it that returns has started
  exactly the commands of \<open>cs\<close>, in order, each with exit status 0, and every run of it that
  raises is aborted along \<open>cs\<close>.
\<close>

definition follows :: "host \<Rightarrow> string list list \<Rightarrow> step \<Rightarrow> bool" where
  "follows h cs s \<longleftrightarrow>
     (\<forall>w r w'. s w = (r, w') \<longrightarrow>
        (r = None \<longrightarrow> trace w' = trace w @ map (\<lambda>a. (a, 0)) cs) \<and>
        (\<forall>e. r = Some e \<longrightarrow> aborted h cs w e w'))"

subsection \<open>A small configuration and two hosts\<close>

definition ex_settings :: settings where
  "ex_settings =
     \<lparr>settings_assembly_dir = Some (YStr ''out''), settings_build_dir = Some (YStr ''build''),
      outputs_fab =
        [\<lparr>fab_name = ''top'', fab_layers = ''F.Cu'', fab_mirror = None,
          fab_include_border_title = True\<rparr>,
         \<lparr>fab_name = ''bot'', fab_layers = ''B.Cu'', fab_mirror = Some True,
          fab_include_border_title = False\<rparr>],
      outputs_kibom =
        [\<lparr>bom_ini = ''bom.ini'', bom_formats = [''csv'', ''html''], bom_file_id = ''bom''\<rparr>]\<rparr>"

definition ex_variants :: "variant list" where
  "ex_variants =
     [\<lparr>variant_name = Some ''Alpha'', variant_variant = Some ''A''\<rparr>,
      \<lparr>variant_name = Some ''Beta'', variant_variant = Some ''B''\<rparr>]"

definition ex_renamed_variants :: "variant list" where
  "ex_renamed_variants =
     [\<lparr>variant_name = Some ''First'', variant_variant = Some ''A''\<rparr>,
      \<lparr>variant_name = None, variant_variant = Some ''B''\<rparr>]"

definition ex_board_yaml :: board_yaml where
  "ex_board_yaml =
     \<lparr>yaml_name = Some (YStr ''W''), yaml_kicad_pro = Some (YStr ''W.kicad_pro''),
      yaml_variants = Some ex_variants\<rparr>"

definition ex_board :: Board where
  "ex_board =
     \<lparr>name = YStr ''W'', kicad_pro = Parsed [] [''W.kicad_pro''],
      kicad_sch = Parsed [] [''W.kicad_sch''], kicad_pcb = Parsed [] [''W.kicad_pcb''],
      assembly_dir = Parsed [] [''out'', ''W''], build_dir = Parsed [] [''build'', ''W''],
      variants = Some ex_variants\<rparr>"

text \<open>A host whose PDF export writes a two-page document, whose placement export writes a
  header and one component, and whose BOM generator writes the named file into the given
  directory; every program exits with status 0.\<close>

definition ex_tool :: "string list \<Rightarrow> world \<Rightarrow> int \<times> fs" where
  "ex_tool cmd w =
     (if take 4 cmd = [''kicad-cli'', ''pcb'', ''export'', ''pdf'']
      then (0, (files w)(Path (cmd ! 5) \<mapsto> File (Pdf [cmd ! 7, ''title''])))
      else if take 4 cmd = [''kicad-cli'', ''pcb'', ''export'', ''pos'']
      then (0, (files w)(Path (cmd ! 7) \<mapsto>
                 File (Text [[''Ref'', ''Val''], [''R1'', ''10k'']] None)))
      else if take 1 cmd = [''kibom'']
      then (0, (files w)(path_join (Path (cmd ! 4)) (last cmd) \<mapsto>
                 File (Text [[''Ref'', ''Qty'']] None)))
      else (0, files w))"

definition ex_host :: host where
  "ex_host = \<lparr>tool = ex_tool, resolve = (\<lambda>p. Parsed ''/'' (''work'' # path_tail p))\<rparr>"

text \<open>A host whose Gerber export exits with status 1.\<close>

definition ex_failing_host :: host where
  "ex_failing_host =
     \<lparr>tool = (\<lambda>cmd w. (if take 4 cmd = [''kicad-cli'', ''pcb'', ''export'', ''gerbers'']
                         then 1 else 0, files w)),
      resolve = (\<lambda>p. Parsed ''/'' (''work'' # path_tail p))\<rparr>"

text \<open>A world with a project file, three placement files (one without rows, one with a
  carriage return and a line feed inside a cell) and a Gerber directory.\<close>

definition ex_world :: world where
  "ex_world =
     \<lparr>files =
        [Parsed [] [] \<mapsto>
           Dir [''W.kicad_pro'', ''pos.csv'', ''empty.csv'', ''crlf.csv'', ''gerber''],
         Parsed [] [''W.kicad_pro''] \<mapsto>
           File (Text [[''{'']]
                   (Some (JObj [(''text_variables'', JObj [(''VERSION'', JStr ''1.0'')])]))),
         Parsed [] [''pos.csv''] \<mapsto> File (Text [[''Ref'', ''Val''], [''R1'', ''10k'']] None),
         Parsed [] [''empty.csv''] \<mapsto> File (Text [] None),
         Parsed [] [''crlf.csv''] \<mapsto>
           File (Text [[''Ref'', ''Val''], [''R1'', ''10k'' @ [CHR 0x0D, CHR 0x0A] @ ''1%'']]
                   None),
         Parsed [] [''gerber''] \<mapsto> Dir [''W-F_Cu.gbr'', ''old''],
         Parsed [] [''gerber'', ''W-F_Cu.gbr''] \<mapsto> File (Text [[''G04'']] None),
         Parsed [] [''gerber'', ''old''] \<mapsto> Dir []],
      trace = []\<rparr>"

section \<open>Properties\<close>

subsection \<open>Paths\<close>

lemma rfind_append_dot:
  assumes "CHR ''.'' \<notin> set e"
  shows "rfind (st @ CHR ''.'' # e) CHR ''.'' = int (length st)"
proof -
  have "takeWhile (\<lambda>x. x \<noteq> CHR ''.'') (rev e @ CHR ''.'' # rev st) = rev e"
    using assms by (subst takeWhile_append2) auto
  then show ?thesis by (simp add: rfind_def)
qed

lemma rfind_less: "rfind s c < int (length s)"
  by (simp add: rfind_def)

lemma with_suffix_name:
  "(if path_suffix p = [] then path_name p @ s
    else take (length (path_name p) - length (path_suffix p)) (path_name p) @ s) = path_stem p @ s"
  using rfind_less [of "path_name p" "CHR ''.''"]
  by (auto simp: path_suffix_def path_stem_def Let_def)

lemma path_stem_nonempty: "path_name p \<noteq> [] \<Longrightarrow> path_stem p \<noteq> []"
  by (auto simp: path_stem_def Let_def)

lemma with_suffix_Inr:
  assumes "CHR ''/'' \<notin> set e" "path_name p \<noteq> []"
  shows "with_suffix p (CHR ''.'' # e) =
           (if e = [] then Inl ValueError else Inr (replaced_suffix p (CHR ''.'' # e)))"
  using assms with_suffix_name [of p "CHR ''.'' # e"]
  by (simp add: with_suffix_def Let_def replaced_suffix_def)

lemma with_suffix_Inl: "path_name p = [] \<Longrightarrow> with_suffix p s = Inl ValueError"
  by (simp add: with_suffix_def Let_def)

lemma replaced_suffix_props:
  assumes "CHR ''.'' \<notin> set e" "e \<noteq> []" "path_name p \<noteq> []"
  shows "path_stem (replaced_suffix p (CHR ''.'' # e)) = path_stem p"
    and "path_suffix (replaced_suffix p (CHR ''.'' # e)) = CHR ''.'' # e"
    and "path_parent (replaced_suffix p (CHR ''.'' # e)) = path_parent p"
proof -
  let ?q = "replaced_suffix p (CHR ''.'' # e)"
  have nm: "path_name ?q = path_stem p @ CHR ''.'' # e"
    by (simp add: replaced_suffix_def path_name_def)
  have st: "path_stem p \<noteq> []" using assms(3) by (rule path_stem_nonempty)
  have i: "rfind (path_name ?q) CHR ''.'' = int (length (path_stem p))"
    unfolding nm using assms(1) by (rule rfind_append_dot)
  show "path_stem ?q = path_stem p"
    using st assms(2) unfolding path_stem_def [of ?q] Let_def i by (simp add: nm)
  show "path_suffix ?q = CHR ''.'' # e"
    using st assms(2) unfolding path_suffix_def [of ?q] Let_def i by (simp add: nm)
  show "path_parent ?q = path_parent p"
    using assms(3) by (auto simp: replaced_suffix_def path_parent_def path_name_def)
qed

lemma Path_name_empty: "path_name (Path s) = [] \<longleftrightarrow> path_tail (Path s) = []"
proof -
  have "\<forall>x \<in> set (path_tail (Path s)). x \<noteq> []"
    by (auto simp: Path_def split: prod.splits)
  then show ?thesis
    by (auto simp: path_name_def)
qed

subsection \<open>The board descriptor\<close>

lemma from_yaml_Inr:
  assumes "from_yaml board settings = Inr b"
  obtains pro nm ad bd where
    "yaml_kicad_pro board = Some (YStr pro)" "yaml_name board = Some nm"
    "settings_assembly_dir settings = Some ad" "settings_build_dir settings = Some bd"
    "path_name (Path pro) \<noteq> []"
    "b = \<lparr>name = nm, kicad_pro = Path pro,
          kicad_sch = replaced_suffix (Path pro) ''.kicad_sch'',
          kicad_pcb = replaced_suffix (Path pro) ''.kicad_pcb'',
          assembly_dir = Path (py_str ad @ ''/'' @ py_str nm),
          build_dir = Path (py_str bd @ ''/'' @ py_str nm),
          variants = yaml_variants board\<rparr>"
proof (cases "yaml_kicad_pro board")
  case None
  with assms show ?thesis by (simp add: from_yaml_def)
next
  case (Some v)
  show ?thesis
  proof (cases v)
    case (YStr pro)
    show ?thesis
    proof (cases "path_name (Path pro) = []")
      case True
      with assms Some YStr show ?thesis
        by (simp add: from_yaml_def pathlib_Path_def with_suffix_Inl split: option.splits)
    next
      case False
      with assms Some YStr that show ?thesis
        by (auto simp: from_yaml_def pathlib_Path_def with_suffix_Inr split: option.splits)
    qed
  next
    case YNull
    with assms Some show ?thesis by (simp add: from_yaml_def pathlib_Path_def)
  next
    case (YOther s)
    with assms Some show ?thesis by (simp add: from_yaml_def pathlib_Path_def)
  qed
qed

text \<open>
  C4. When \<^verbatim>\<open>Board.from_yaml\<close> returns a board, its schematic and layout paths have the
  parent and the stem of the project-file path and the extensions \<^verbatim>\<open>.kicad_sch\<close> and
  \<^verbatim>\<open>.kicad_pcb\<close>, and its assembly and build directories are the paths written
  \<^verbatim>\<open>{assembly_dir}/{name}\<close> and \<^verbatim>\<open>{build_dir}/{name}\<close> with the roots of the settings.
\<close>

theorem from_yaml_paths:
  assumes "from_yaml board settings = Inr b"
  shows "\<exists>pro ad bd.
           yaml_kicad_pro board = Some (YStr pro) \<and> yaml_name board = Some (name b) \<and>
           settings_assembly_dir settings = Some ad \<and> settings_build_dir settings = Some bd \<and>
           kicad_pro b = Path pro \<and>
           path_parent (kicad_sch b) = path_parent (kicad_pro b) \<and>
           path_stem (kicad_sch b) = path_stem (kicad_pro b) \<and>
           path_suffix (kicad_sch b) = ''.kicad_sch'' \<and>
           path_parent (kicad_pcb b) = path_parent (kicad_pro b) \<and>
           path_stem (kicad_pcb b) = path_stem (kicad_pro b) \<and>
           path_suffix (kicad_pcb b) = ''.kicad_pcb'' \<and>
           assembly_dir b = Path (py_str ad @ ''/'' @ py_str (name b)) \<and>
           build_dir b = Path (py_str bd @ ''/'' @ py_str (name b))"
proof -
  from assms obtain pro nm ad bd where
    k: "yaml_kicad_pro board = Some (YStr pro)" "yaml_name board = Some nm"
       "settings_assembly_dir settings = Some ad" "settings_build_dir settings = Some bd"
    and nonempty: "path_name (Path pro) \<noteq> []"
    and b: "b = \<lparr>name = nm, kicad_pro = Path pro,
          kicad_sch = replaced_suffix (Path pro) ''.kicad_sch'',
          kicad_pcb = replaced_suffix (Path pro) ''.kicad_pcb'',
          assembly_dir = Path (py_str ad @ ''/'' @ py_str nm),
          build_dir = Path (py_str bd @ ''/'' @ py_str nm),
          variants = yaml_variants board\<rparr>"
    by (rule from_yaml_Inr)
  have sch: "path_parent (replaced_suffix (Path pro) ''.kicad_sch'') = path_parent (Path pro)"
      "path_stem (replaced_suffix (Path pro) ''.kicad_sch'') = path_stem (Path pro)"
      "path_suffix (replaced_suffix (Path pro) ''.kicad_sch'') = ''.kicad_sch''"
    using nonempty by (simp_all add: replaced_suffix_props)
  have pcb: "path_parent (replaced_suffix (Path pro) ''.kicad_pcb'') = path_parent (Path pro)"
      "path_stem (replaced_suffix (Path pro) ''.kicad_pcb'') = path_stem (Path pro)"
      "path_suffix (replaced_suffix (Path pro) ''.kicad_pcb'') = ''.kicad_pcb''"
    using nonempty by (simp_all add: replaced_suffix_props)
  show ?thesis
    using k sch pcb by (simp add: b)
qed

text \<open>The board \<^verbatim>\<open>W\<close> with the project file \<^verbatim>\<open>hw/W.kicad_pro\<close>.\<close>

theorem from_yaml_paths_witness:
  "from_yaml \<lparr>yaml_name = Some (YStr ''W''), yaml_kicad_pro = Some (YStr ''hw/W.kicad_pro''),
              yaml_variants = None\<rparr> ex_settings
   = Inr \<lparr>name = YStr ''W'', kicad_pro = Parsed [] [''hw'', ''W.kicad_pro''],
          kicad_sch = Parsed [] [''hw'', ''W.kicad_sch''],
          kicad_pcb = Parsed [] [''hw'', ''W.kicad_pcb''],
          assembly_dir = Parsed [] [''out'', ''W''], build_dir = Parsed [] [''build'', ''W''],
          variants = None\<rparr>
   \<and> path_stem (Parsed [] [''hw'', ''W.kicad_sch'']) = path_stem (Parsed [] [''hw'', ''W.kicad_pro''])
   \<and> path_parent (Parsed [] [''hw'', ''W.kicad_sch'']) = Parsed [] [''hw'']"
proof -
  let ?b = "\<lparr>name = YStr ''W'', kicad_pro = Parsed [] [''hw'', ''W.kicad_pro''],
          kicad_sch = Parsed [] [''hw'', ''W.kicad_sch''],
          kicad_pcb = Parsed [] [''hw'', ''W.kicad_pcb''],
          assembly_dir = Parsed [] [''out'', ''W''], build_dir = Parsed [] [''build'', ''W''],
          variants = None\<rparr>"
  have h: "from_yaml \<lparr>yaml_name = Some (YStr ''W''),
                      yaml_kicad_pro = Some (YStr ''hw/W.kicad_pro''),
                      yaml_variants = None\<rparr> ex_settings = Inr ?b"
    by (simp add: from_yaml_def pathlib_Path_def py_str_def Path_def splitroot_def
        with_suffix_def path_name_def path_suffix_def rfind_def ex_settings_def)
  from from_yaml_paths [OF h] have
    "path_stem (kicad_sch ?b) = path_stem (kicad_pro ?b) \<and>
     path_parent (kicad_sch ?b) = path_parent (kicad_pro ?b)"
    by blast
  with h show ?thesis by (simp add: path_parent_def)
qed

text \<open>
  C8. \<^verbatim>\<open>Board.from_yaml\<close> is a function of the raw record and the settings alone. It fails
  exactly when the raw record lacks the project-file path or holds something other than a
  string for it, when the raw record lacks the name, when the project-file path has no
  final component, or when the settings lack the assembly or the build root. An absent
  list of variants never makes it fail, and neither does a name or a root that is not a
  string.
\<close>

theorem from_yaml_fails_iff:
  "(\<exists>e. from_yaml board settings = Inl e) \<longleftrightarrow>
     (yaml_kicad_pro board = None \<or>
      (\<exists>v. yaml_kicad_pro board = Some v \<and> (\<forall>pro. v \<noteq> YStr pro)) \<or>
      yaml_name board = None \<or>
      (\<exists>pro. yaml_kicad_pro board = Some (YStr pro) \<and> path_tail (Path pro) = []) \<or>
      settings_assembly_dir settings = None \<or> settings_build_dir settings = None)"
proof (cases "yaml_kicad_pro board")
  case None
  then show ?thesis by (simp add: from_yaml_def)
next
  case (Some v)
  show ?thesis
  proof (cases v)
    case (YStr pro)
    show ?thesis
    proof (cases "path_name (Path pro) = []")
      case True
      with Some YStr show ?thesis
        by (auto simp: from_yaml_def pathlib_Path_def with_suffix_Inl Path_name_empty
            split: option.splits)
    next
      case False
      with Some YStr show ?thesis
        by (auto simp: from_yaml_def pathlib_Path_def with_suffix_Inr Path_name_empty
            split: option.splits)
    qed
  next
    case YNull
    with Some show ?thesis by (simp add: from_yaml_def pathlib_Path_def)
  next
    case (YOther s)
    with Some show ?thesis by (simp add: from_yaml_def pathlib_Path_def)
  qed
qed

text \<open>A record with every key but the name: the project-file path is present and the
  construction fails.\<close>

theorem from_yaml_missing_name_counterexample:
  "yaml_kicad_pro \<lparr>yaml_name = None, yaml_kicad_pro = Some (YStr ''W.kicad_pro''),
                   yaml_variants = None\<rparr> = Some (YStr ''W.kicad_pro'')
   \<and> from_yaml \<lparr>yaml_name = None, yaml_kicad_pro = Some (YStr ''W.kicad_pro''),
                yaml_variants = None\<rparr>
       \<lparr>settings_assembly_dir = Some (YStr ''out''), settings_build_dir = Some (YStr ''build''),
        outputs_fab = [], outputs_kibom = []\<rparr> = Inl (KeyError ''name'')"
  by (simp add: from_yaml_def pathlib_Path_def)

text \<open>The project-file path \<^verbatim>\<open>/\<close> and a project-file path that is null make the
  construction fail; with a proper path it succeeds whatever the variants are, also for a
  name that is null.\<close>

theorem from_yaml_fails_iff_witness:
  "from_yaml \<lparr>yaml_name = Some (YStr ''W''), yaml_kicad_pro = Some (YStr ''/''),
              yaml_variants = None\<rparr>
       \<lparr>settings_assembly_dir = Some (YStr ''out''), settings_build_dir = Some (YStr ''build''),
        outputs_fab = [], outputs_kibom = []\<rparr> = Inl ValueError
   \<and> from_yaml \<lparr>yaml_name = Some (YStr ''W''), yaml_kicad_pro = Some YNull,
                yaml_variants = None\<rparr>
       \<lparr>settings_assembly_dir = Some (YStr ''out''), settings_build_dir = Some (YStr ''build''),
        outputs_fab = [], outputs_kibom = []\<rparr> = Inl TypeError
   \<and> (\<forall>vs. \<exists>b. from_yaml \<lparr>yaml_name = Some YNull, yaml_kicad_pro = Some (YStr ''W.kicad_pro''),
                            yaml_variants = vs\<rparr>
       \<lparr>settings_assembly_dir = Some (YStr ''out''), settings_build_dir = Some (YStr ''build''),
        outputs_fab = [], outputs_kibom = []\<rparr> = Inr b)"
proof -
  let ?s = "\<lparr>settings_assembly_dir = Some (YStr ''out''),
             settings_build_dir = Some (YStr ''build''),
             outputs_fab = [], outputs_kibom = []\<rparr>"
  have t: "path_tail (Path ''W.kicad_pro'') \<noteq> []"
    by (simp add: Path_def splitroot_def)
  have "\<exists>b. from_yaml \<lparr>yaml_name = Some YNull, yaml_kicad_pro = Some (YStr ''W.kicad_pro''),
                       yaml_variants = vs\<rparr> ?s = Inr b" for vs
    using from_yaml_fails_iff [of "\<lparr>yaml_name = Some YNull,
                       yaml_kicad_pro = Some (YStr ''W.kicad_pro''),
                       yaml_variants = vs\<rparr>" ?s] t
    by (cases "from_yaml \<lparr>yaml_name = Some YNull, yaml_kicad_pro = Some (YStr ''W.kicad_pro''),
                       yaml_variants = vs\<rparr> ?s") auto
  moreover have "from_yaml \<lparr>yaml_name = Some (YStr ''W''), yaml_kicad_pro = Some (YStr ''/''),
                   yaml_variants = None\<rparr> ?s = Inl ValueError"
    by (simp add: from_yaml_def pathlib_Path_def Path_def splitroot_def with_suffix_def
        path_name_def)
  moreover have "from_yaml \<lparr>yaml_name = Some (YStr ''W''), yaml_kicad_pro = Some YNull,
                   yaml_variants = None\<rparr> ?s = Inl TypeError"
    by (simp add: from_yaml_def pathlib_Path_def)
  ultimately show ?thesis by blast
qed

subsection \<open>Files\<close>


lemma open_w_other:
  "open_w p c fs = Inr fs' \<Longrightarrow> q \<noteq> p \<Longrightarrow> q \<noteq> path_parent p \<Longrightarrow> fs' q = fs q"
  by (auto simp: open_w_def split: option.splits node.splits)

lemma open_w_file:
  "open_w p c fs = Inr fs' \<Longrightarrow> q \<noteq> p \<Longrightarrow> fs q = Some (File d) \<Longrightarrow> fs' q = Some (File d)"
  by (auto simp: open_w_def split: option.splits node.splits)

lemma open_w_file_iff:
  "open_w p c fs = Inr fs' \<Longrightarrow> q \<noteq> p \<Longrightarrow> fs' q = Some (File d) \<longleftrightarrow> fs q = Some (File d)"
  by (auto simp: open_w_def split: option.splits node.splits if_splits)

lemma open_w_None_iff:
  "open_w p c fs = Inr fs' \<Longrightarrow> q \<noteq> p \<Longrightarrow> fs' q = None \<longleftrightarrow> fs q = None"
  by (auto simp: open_w_def split: option.splits node.splits if_splits)

lemma returns_None: "fst r = None \<Longrightarrow> r = (None, snd r)"
  by (simp add: prod_eq_iff)

lemma returns_Some: "fst r = Some e \<Longrightarrow> r = (Some e, snd r)"
  by (simp add: prod_eq_iff)

subsection \<open>The placement reshape\<close>

lemma universal_newlines_no_cr: "CHR 0x0D \<notin> set (universal_newlines s)"
  by (induction s rule: universal_newlines.induct) auto

lemma universal_newlines_id: "CHR 0x0D \<notin> set s \<Longrightarrow> universal_newlines s = s"
  by (induction s rule: universal_newlines.induct) auto

lemma universal_newlines_idem:
  "map (map universal_newlines) (map (map universal_newlines) rows)
   = map (map universal_newlines) rows"
  by (simp add: universal_newlines_id universal_newlines_no_cr)

lemma universal_newlines_header: "map universal_newlines jlcpcb_header = jlcpcb_header"
  by (simp add: jlcpcb_header_def)

lemma mk_pos_jlcpcb_None:
  assumes "mk_pos_jlcpcb board settings pos_path jlcpcb_path w = (None, w')"
  shows "\<exists>fs1 stored js. open_w jlcpcb_path (Text [] None) (files w) = Inr fs1 \<and>
           fs1 pos_path = Some (File (Text stored js)) \<and>
           w' = w\<lparr>files := fs1(jlcpcb_path \<mapsto>
                   File (Text (jlcpcb_header # map (map universal_newlines) (tl stored))
                           None))\<rparr>"
proof -
  from assms obtain fs1 input where
    o: "open_w jlcpcb_path (Text [] None) (files w) = Inr fs1"
    and r: "csv_reader fs1 pos_path = Inr input"
    and w': "w' = w\<lparr>files := fs1(jlcpcb_path \<mapsto> File (Text (jlcpcb_header # tl input) None))\<rparr>"
    by (auto simp: mk_pos_jlcpcb_def Let_def split: sum.splits list.splits)
  from r obtain stored js where
    s: "fs1 pos_path = Some (File (Text stored js))"
    and i: "input = map (map universal_newlines) stored"
    by (auto simp: csv_reader_def split: option.splits node.splits content.splits)
  from o s i w' show ?thesis by (simp add: map_tl)
qed




text \<open>
  C5. Let \<^verbatim>\<open>mk_pos_jlcpcb\<close> return, and let a second application, on the file the first one
  produced and into a different file, return too. Then the second output holds the same
  rows as the first output, which is left as it was: the reshape drops the header the first
  application wrote and writes it again, and no component row is lost.
\<close>

theorem mk_pos_jlcpcb_idempotent:
  assumes "mk_pos_jlcpcb board settings p0 p1 w = (None, w1)"
    and "mk_pos_jlcpcb board settings p1 p2 w1 = (None, w2)"
    and "p1 \<noteq> p2"
  shows "files w2 p2 = files w1 p1 \<and> files w2 p1 = files w1 p1"
proof -
  from assms(1) obtain stored where
    f1: "files w1 p1
         = Some (File (Text (jlcpcb_header # map (map universal_newlines) (tl stored)) None))"
    using mk_pos_jlcpcb_None by fastforce
  from assms(2) obtain fs1 stored' js' where
    o: "open_w p2 (Text [] None) (files w1) = Inr fs1"
    and s: "fs1 p1 = Some (File (Text stored' js'))"
    and w2: "w2 = w1\<lparr>files := fs1(p2 \<mapsto>
                   File (Text (jlcpcb_header # map (map universal_newlines) (tl stored'))
                           None))\<rparr>"
    using mk_pos_jlcpcb_None by blast
  from o f1 assms(3) have k: "fs1 p1
         = Some (File (Text (jlcpcb_header # map (map universal_newlines) (tl stored)) None))"
    by (simp add: open_w_file)
  with s have "stored' = jlcpcb_header # map (map universal_newlines) (tl stored)" by simp
  then have "map (map universal_newlines) (tl stored')
             = map (map universal_newlines) (tl stored)"
    by (simp only: list.sel universal_newlines_idem)
  then show ?thesis using f1 k assms(3) by (simp add: w2)
qed

text \<open>The reshape of \<^verbatim>\<open>pos.csv\<close> into \<^verbatim>\<open>cpl.csv\<close>, applied again into \<^verbatim>\<open>cpl2.csv\<close>.\<close>

theorem mk_pos_jlcpcb_idempotent_witness:
  "files (snd (mk_pos_jlcpcb ex_board ex_settings (Path ''cpl.csv'') (Path ''cpl2.csv'')
           (snd (mk_pos_jlcpcb ex_board ex_settings (Path ''pos.csv'') (Path ''cpl.csv'')
              ex_world)))) (Path ''cpl2.csv'')
   = files (snd (mk_pos_jlcpcb ex_board ex_settings (Path ''pos.csv'') (Path ''cpl.csv'') ex_world))
       (Path ''cpl.csv'')"
proof -
  let ?w1 = "snd (mk_pos_jlcpcb ex_board ex_settings (Path ''pos.csv'') (Path ''cpl.csv'') ex_world)"
  have a: "fst (mk_pos_jlcpcb ex_board ex_settings (Path ''pos.csv'') (Path ''cpl.csv'') ex_world)
           = None"
    by code_simp
  have b: "fst (mk_pos_jlcpcb ex_board ex_settings (Path ''cpl.csv'') (Path ''cpl2.csv'') ?w1)
           = None"
    by code_simp
  have c: "Path ''cpl.csv'' \<noteq> Path ''cpl2.csv''"
    by code_simp
  from mk_pos_jlcpcb_idempotent [OF returns_None [OF a] returns_None [OF b] c]
  show ?thesis by simp
qed

text \<open>The same two applications: the second output equals the first, and the component
  row is still there.\<close>

theorem mk_pos_jlcpcb_twice_counterexample:
  "files (snd (mk_pos_jlcpcb ex_board ex_settings (Path ''cpl.csv'') (Path ''cpl2.csv'')
           (snd (mk_pos_jlcpcb ex_board ex_settings (Path ''pos.csv'') (Path ''cpl.csv'')
              ex_world)))) (Path ''cpl2.csv'')
   = Some (File (Text [jlcpcb_header, [''R1'', ''10k'']] None)) \<and>
   files (snd (mk_pos_jlcpcb ex_board ex_settings (Path ''pos.csv'') (Path ''cpl.csv'') ex_world))
     (Path ''cpl.csv'')
   = Some (File (Text [jlcpcb_header, [''R1'', ''10k'']] None))"
  by code_simp

subsection \<open>The Gerber archive\<close>

lemma zip_write_member:
  "zip_write fs (Parsed (path_root d) (path_tail d @ [n])) = Inr m \<Longrightarrow>
     m = member_of fs d n \<and> fs (Parsed (path_root d) (path_tail d @ [n])) \<noteq> None"
  by (auto simp: zip_write_def member_of_def path_name_def split: option.splits node.splits)

lemma zip_loop_members:
  "zip_loop fs (map (\<lambda>n. Parsed (path_root d) (path_tail d @ [n])) names) acc = (None, archive)
   \<Longrightarrow> archive = acc @ map (member_of fs d) names \<and>
       (\<forall>n \<in> set names. fs (Parsed (path_root d) (path_tail d @ [n])) \<noteq> None)"
proof (induction names arbitrary: acc)
  case Nil
  then show ?case by simp
next
  case (Cons n names)
  from Cons.prems obtain m where
    m: "zip_write fs (Parsed (path_root d) (path_tail d @ [n])) = Inr m"
    and l: "zip_loop fs (map (\<lambda>n. Parsed (path_root d) (path_tail d @ [n])) names) (acc @ [m])
            = (None, archive)"
    by (auto split: sum.splits)
  from Cons.IH [OF l] zip_write_member [OF m] show ?case by simp
qed

lemma child_not_archive:
  assumes "path_parent z \<noteq> d"
  shows "Parsed (path_root d) (path_tail d @ [n]) \<noteq> z"
proof -
  have "path_parent (Parsed (path_root d) (path_tail d @ [n])) = d"
    by (simp add: path_parent_def)
  with assms show ?thesis by auto
qed

lemma member_of_open_w:
  assumes "open_w z c fs = Inr fs1" and "path_parent z \<noteq> d"
  shows "member_of fs1 d n = member_of fs d n"
proof -
  let ?q = "Parsed (path_root d) (path_tail d @ [n])"
  have ne: "?q \<noteq> z" using assms(2) by (rule child_not_archive)
  have "\<And>k. fs1 ?q = Some (File k) \<longleftrightarrow> fs ?q = Some (File k)"
    using open_w_file_iff [OF assms(1) ne] .
  then show ?thesis
    unfolding member_of_def
    by (cases "fs ?q"; cases "fs1 ?q") (auto split: node.splits)
qed

text \<open>
  C6. Let the Gerber directory hold the entries \<open>names\<close>, let the archive not lie in the
  Gerber directory itself and let \<^verbatim>\<open>mk_gerber_zip\<close> return. Then the archive has one member
  per entry of the directory, in the order of the listing: a file is stored under its own
  name, without any path prefix, with its data; a subdirectory is stored as the directory
  entry \<^verbatim>\<open>name/\<close> without data, and what it contains is not stored. Every entry exists.
  In \<^verbatim>\<open>build_board\<close> the archive is the file \<^verbatim>\<open>{name}-gerber.zip\<close> in the assembly
  directory and the directory is \<^verbatim>\<open>{name}-gerber\<close> in the build directory.
\<close>

theorem mk_gerber_zip_members:
  assumes "files w gerber_dir = Some (Dir names)"
    and "path_parent gerber_zip \<noteq> gerber_dir"
    and "mk_gerber_zip gerber_dir gerber_zip w = (None, w')"
  shows "files w' gerber_zip = Some (File (Zip (map (member_of (files w) gerber_dir) names))) \<and>
         (\<forall>n \<in> set names.
            files w (Parsed (path_root gerber_dir) (path_tail gerber_dir @ [n])) \<noteq> None) \<and>
         build_board_steps h board settings ! 5 =
           mk_gerber_zip (path_join (build_dir board) (py_str (name board) @ ''-gerber''))
             (path_join (assembly_dir board) (py_str (name board) @ ''-gerber.zip''))"
proof -
  from assms(3) obtain fs1 entries archive where
    o: "open_w gerber_zip (Zip []) (files w) = Inr fs1"
    and i: "iterdir fs1 gerber_dir = Inr entries"
    and z: "zip_loop fs1 entries [] = (None, archive)"
    and w': "w' = w\<lparr>files := fs1(gerber_zip \<mapsto> File (Zip archive))\<rparr>"
    by (auto simp: mk_gerber_zip_def split: sum.splits prod.splits)
  from o assms(1) have "gerber_zip \<noteq> gerber_dir"
    by (auto simp: open_w_def split: option.splits node.splits)
  with o assms(1,2) have "fs1 gerber_dir = Some (Dir names)"
    by (simp add: open_w_other)
  with i have
    "entries = map (\<lambda>n. Parsed (path_root gerber_dir) (path_tail gerber_dir @ [n])) names"
    by (simp add: iterdir_def)
  with z have a: "archive = map (member_of fs1 gerber_dir) names"
    and e: "\<forall>n \<in> set names.
              fs1 (Parsed (path_root gerber_dir) (path_tail gerber_dir @ [n])) \<noteq> None"
    using zip_loop_members by fastforce+
  have "map (member_of fs1 gerber_dir) names = map (member_of (files w) gerber_dir) names"
    using member_of_open_w [OF o assms(2)] by simp
  with a have "files w' gerber_zip
               = Some (File (Zip (map (member_of (files w) gerber_dir) names)))"
    by (simp add: w')
  moreover have "\<forall>n \<in> set names.
      files w (Parsed (path_root gerber_dir) (path_tail gerber_dir @ [n])) \<noteq> None"
    using e open_w_None_iff [OF o child_not_archive [OF assms(2)]] by simp
  moreover have "build_board_steps h board settings ! 5 =
           mk_gerber_zip (path_join (build_dir board) (py_str (name board) @ ''-gerber''))
             (path_join (assembly_dir board) (py_str (name board) @ ''-gerber.zip''))"
    by (simp add: build_board_steps_def gerber_dir_of_def gerber_zip_of_def)
  ultimately show ?thesis by blast
qed

text \<open>A directory with one Gerber file and an empty subdirectory.\<close>

theorem mk_gerber_zip_members_witness:
  "files ex_world (Path ''gerber'') = Some (Dir [''W-F_Cu.gbr'', ''old'']) \<and>
   files (snd (mk_gerber_zip (Path ''gerber'') (Path ''W-gerber.zip'') ex_world))
     (Path ''W-gerber.zip'')
   = Some (File (Zip (map (member_of (files ex_world) (Path ''gerber'')) [''W-F_Cu.gbr'', ''old''])))"
proof -
  have a: "files ex_world (Path ''gerber'') = Some (Dir [''W-F_Cu.gbr'', ''old''])"
    by code_simp
  have b: "path_parent (Path ''W-gerber.zip'') \<noteq> Path ''gerber''"
    by code_simp
  have c: "fst (mk_gerber_zip (Path ''gerber'') (Path ''W-gerber.zip'') ex_world) = None"
    by code_simp
  from mk_gerber_zip_members [OF a b returns_None [OF c]] a show ?thesis
    by simp
qed

text \<open>In that directory the only file is \<^verbatim>\<open>W-F_Cu.gbr\<close>, and the archive has a second member,
  the directory entry \<^verbatim>\<open>old/\<close>.\<close>

theorem mk_gerber_zip_subdirectory_counterexample:
  "files ex_world (Path ''gerber'') = Some (Dir [''W-F_Cu.gbr'', ''old'']) \<and>
   files ex_world (Path ''gerber/W-F_Cu.gbr'') = Some (File (Text [[''G04'']] None)) \<and>
   files ex_world (Path ''gerber/old'') = Some (Dir []) \<and>
   mk_gerber_zip (Path ''gerber'') (Path ''W-gerber.zip'') ex_world
     = (None, snd (mk_gerber_zip (Path ''gerber'') (Path ''W-gerber.zip'') ex_world)) \<and>
   files (snd (mk_gerber_zip (Path ''gerber'') (Path ''W-gerber.zip'') ex_world))
     (Path ''W-gerber.zip'')
   = Some (File (Zip [(''W-F_Cu.gbr'', Some (Text [[''G04'']] None)), (''old/'', None)])) \<and>
   set (map fst [(''W-F_Cu.gbr'', Some (Text [[''G04'']] None)), (''old/'', None :: content option)])
     \<noteq> {''W-F_Cu.gbr''}"
proof -
  have "fst (mk_gerber_zip (Path ''gerber'') (Path ''W-gerber.zip'') ex_world) = None"
    by code_simp
  moreover have "files ex_world (Path ''gerber'') = Some (Dir [''W-F_Cu.gbr'', ''old''])"
    by code_simp
  moreover have "files ex_world (Path ''gerber/W-F_Cu.gbr'') = Some (File (Text [[''G04'']] None))"
    by code_simp
  moreover have "files ex_world (Path ''gerber/old'') = Some (Dir [])"
    by code_simp
  moreover have "files (snd (mk_gerber_zip (Path ''gerber'') (Path ''W-gerber.zip'') ex_world))
     (Path ''W-gerber.zip'')
   = Some (File (Zip [(''W-F_Cu.gbr'', Some (Text [[''G04'']] None)), (''old/'', None)]))"
    by code_simp
  ultimately show ?thesis by (simp add: prod_eq_iff)
qed

subsection \<open>The fabrication PDF\<close>




subsection \<open>Loops and sequences\<close>

lemma for_each_append:
  "for_each (xs @ ys) body w =
     (case for_each xs body w of
        (None, w') \<Rightarrow> for_each ys body w'
      | (Some e, w') \<Rightarrow> (Some e, w'))"
  by (induction xs arbitrary: w) (auto split: prod.splits option.splits)

lemma for_each_map: "for_each (map f xs) body = for_each xs (\<lambda>x. body (f x))"
proof
  fix w show "for_each (map f xs) body w = for_each xs (\<lambda>x. body (f x)) w"
    by (induction xs arbitrary: w) (auto split: prod.splits option.splits)
qed

lemma for_each_single: "for_each [x] body = body x"
  by (rule ext) (simp split: prod.splits option.splits)

lemma for_each_concat:
  "for_each (concat xss) body = for_each xss (\<lambda>xs. for_each xs body)"
proof
  fix w show "for_each (concat xss) body w = for_each xss (\<lambda>xs. for_each xs body) w"
    by (induction xss arbitrary: w) (auto simp: for_each_append split: prod.splits option.splits)
qed

lemma run_all_abort:
  assumes "run_all pre w = (None, w1)" and "s w1 = (Some e, w2)"
  shows "run_all (pre @ s # post) w = (Some e, w2)"
  using assms by (simp add: run_all_def for_each_append)

lemma main_boards:
  "main h \<lparr>config_settings = settings, config_boards = bs\<rparr> =
     for_each bs (\<lambda>board w.
       (case from_yaml board settings of
          Inl e \<Rightarrow> (Some e, w)
        | Inr b \<Rightarrow> build_board h b settings w))"
  by (simp add: main_def cong: sum.case_cong)

subsection \<open>Processes\<close>



lemma check_call_Some:
  "check_call h cmd w = (Some e, w1) \<Longrightarrow>
     (\<exists>c. e = CalledProcessError c cmd \<and> c \<noteq> 0 \<and> tool h cmd w = (c, files w1) \<and>
          trace w1 = trace w @ [(cmd, c)])"
  by (auto simp: check_call_def split: prod.splits if_splits)


subsection \<open>The BOM files\<close>







lemma build_board_kibom_cmds:
  "build_board_kibom h board settings xml
   = for_each (kibom_cmds h board settings xml) (check_call h)"
  by (simp add: build_board_kibom_def kibom_cmds_def for_each_concat for_each_map run_kibom_def)







subsection \<open>Variants\<close>

lemma fab_pdf_file_variants: "fab_pdf_file (board\<lparr>variants := vs\<rparr>) fab = fab_pdf_file board fab"
  by (simp add: fab_pdf_file_def)

lemma fab_cmd_variants: "fab_cmd (board\<lparr>variants := vs\<rparr>) fab = fab_cmd board fab"
  by (simp add: fab_cmd_def fab_pdf_file_variants)

lemma fab_loop_variants:
  "fab_loop h (board\<lparr>variants := vs\<rparr>) fabs writer w = fab_loop h board fabs writer w"
proof (induction fabs arbitrary: writer w)
  case Nil
  show ?case by simp
next
  case (Cons fab fabs)
  show ?case
    by (simp only: fab_loop.simps fab_cmd_variants fab_pdf_file_variants Cons.IH)
qed

lemma build_board_steps_variants:
  assumes "build_board_kibom h (board\<lparr>variants := vs\<rparr>) settings (board_bom_xml_of board)
           = build_board_kibom h (board\<lparr>variants := vs'\<rparr>) settings (board_bom_xml_of board)"
  shows "build_board_steps h (board\<lparr>variants := vs\<rparr>) settings
         = build_board_steps h (board\<lparr>variants := vs'\<rparr>) settings"
proof -
  have x: "board_bom_xml_of (board\<lparr>variants := v\<rparr>) = board_bom_xml_of board" for v
    by (simp add: board_bom_xml_of_def)
  have "mk_fab_pdf h (board\<lparr>variants := v\<rparr>) settings p = mk_fab_pdf h board settings p" for v p
    by (rule ext) (simp only: mk_fab_pdf_def fab_loop_variants)
  moreover have "mk_step h (board\<lparr>variants := v\<rparr>) settings p = mk_step h board settings p"
    for v p
    by (simp add: mk_step_def)
  moreover have "mk_pos h (board\<lparr>variants := v\<rparr>) settings p = mk_pos h board settings p"
    for v p
    by (simp add: mk_pos_def)
  moreover have "mk_pos_jlcpcb (board\<lparr>variants := v\<rparr>) settings p q
                 = mk_pos_jlcpcb board settings p q" for v p q
    by (rule ext) (simp add: mk_pos_jlcpcb_def)
  ultimately show ?thesis
    using assms
    by (simp add: build_board_steps_def gerber_dir_of_def gerber_zip_of_def x pos_path_of_def)
qed

lemma kibom_variants_cong:
  assumes "map variant_variant (variants_or_default (board\<lparr>variants := vs\<rparr>))
           = map variant_variant (variants_or_default (board\<lparr>variants := vs'\<rparr>))"
  shows "build_board_kibom h (board\<lparr>variants := vs\<rparr>) settings xml
         = build_board_kibom h (board\<lparr>variants := vs'\<rparr>) settings xml"
proof -
  have "for_each (variants_or_default (board\<lparr>variants := v\<rparr>)) (\<lambda>variant.
           run_kibom h xml (bom_ini bom) (variant_variant variant)
             (path_join (assembly_dir (board\<lparr>variants := v\<rparr>))
                (bom_filename (board\<lparr>variants := v\<rparr>) bom format variant)))
        = for_each (map variant_variant (variants_or_default (board\<lparr>variants := v\<rparr>))) (\<lambda>vv.
           run_kibom h xml (bom_ini bom) vv
             (path_join (assembly_dir board)
                (case vv of
                   Some v \<Rightarrow> py_str (name board) @ ''-'' @ v @ ''-'' @ bom_file_id bom @ ''.'' @ format
                 | None \<Rightarrow> py_str (name board) @ ''-'' @ bom_file_id bom @ ''.'' @ format)))"
    for v bom format
    by (simp add: for_each_map bom_filename_def cong: option.case_cong)
  then show ?thesis
    unfolding build_board_kibom_def using assms by simp
qed

lemma build_board_variants_cong:
  assumes "map variant_variant (variants_or_default (board\<lparr>variants := vs\<rparr>))
           = map variant_variant (variants_or_default (board\<lparr>variants := vs'\<rparr>))"
  shows "build_board h (board\<lparr>variants := vs\<rparr>) settings
         = build_board h (board\<lparr>variants := vs'\<rparr>) settings"
proof -
  have "build_board_steps h (board\<lparr>variants := vs\<rparr>) settings
        = build_board_steps h (board\<lparr>variants := vs'\<rparr>) settings"
    using assms by (intro build_board_steps_variants kibom_variants_cong)
  then show ?thesis by (simp only: build_board_def)
qed

lemma from_yaml_variants:
  "from_yaml (raw\<lparr>yaml_variants := vs\<rparr>) settings =
     (case from_yaml raw settings of Inl e \<Rightarrow> Inl e | Inr b \<Rightarrow> Inr (b\<lparr>variants := vs\<rparr>))"
  by (simp add: from_yaml_def split: option.splits sum.splits)

text \<open>
  C9. The name of a variant is not used: two lists of variants with the same selectors, in
  the same order, give the same run of \<^verbatim>\<open>build_board\<close> from every world, and the same BOM
  file names, whose variant component is the selector.
\<close>

theorem variant_name_unused:
  assumes "map variant_variant vs = map variant_variant vs'"
  shows "build_board h (board\<lparr>variants := Some vs\<rparr>) settings
           = build_board h (board\<lparr>variants := Some vs'\<rparr>) settings \<and>
         map (bom_filename board bom format) vs = map (bom_filename board bom format) vs' \<and>
         (\<forall>v s. variant_variant v = Some s \<longrightarrow>
            bom_filename board bom format v
              = py_str (name board) @ ''-'' @ s @ ''-'' @ bom_file_id bom @ ''.'' @ format)"
proof -
  have e: "vs = [] \<longleftrightarrow> vs' = []"
    using assms by (metis map_is_Nil_conv)
  have "map variant_variant (variants_or_default (board\<lparr>variants := Some vs\<rparr>))
        = map variant_variant (variants_or_default (board\<lparr>variants := Some vs'\<rparr>))"
    using assms e by (cases vs; cases vs') (simp_all add: variants_or_default_def)
  then have "build_board h (board\<lparr>variants := Some vs\<rparr>) settings
           = build_board h (board\<lparr>variants := Some vs'\<rparr>) settings"
    by (rule build_board_variants_cong)
  moreover have "map (bom_filename board bom format) vs = map (bom_filename board bom format) vs'"
  proof -
    define F where "F = (\<lambda>vv. case vv of
                   Some v \<Rightarrow> py_str (name board) @ ''-'' @ v @ ''-'' @ bom_file_id bom @ ''.'' @ format
                 | None \<Rightarrow> py_str (name board) @ ''-'' @ bom_file_id bom @ ''.'' @ format)"
    have "bom_filename board bom format = F \<circ> variant_variant"
      by (rule ext) (simp add: bom_filename_def F_def)
    then have "map (bom_filename board bom format) xs = map F (map variant_variant xs)" for xs
      by (simp only: map_map)
    with assms show ?thesis by (simp only:)
  qed
  moreover have "\<forall>v s. variant_variant v = Some s \<longrightarrow>
            bom_filename board bom format v
              = py_str (name board) @ ''-'' @ s @ ''-'' @ bom_file_id bom @ ''.'' @ format"
    by (simp add: bom_filename_def)
  ultimately show ?thesis by blast
qed

text \<open>The variants \<^verbatim>\<open>A\<close> and \<^verbatim>\<open>B\<close> under other names.\<close>

theorem variant_name_unused_witness:
  "map variant_variant ex_variants = map variant_variant ex_renamed_variants \<and>
   map variant_name ex_variants \<noteq> map variant_name ex_renamed_variants \<and>
   build_board ex_host (ex_board\<lparr>variants := Some ex_renamed_variants\<rparr>) ex_settings ex_world
     = build_board ex_host (ex_board\<lparr>variants := Some ex_variants\<rparr>) ex_settings ex_world"
proof -
  have a: "map variant_variant ex_variants = map variant_variant ex_renamed_variants"
    by (simp add: ex_variants_def ex_renamed_variants_def)
  have b: "map variant_name ex_variants \<noteq> map variant_name ex_renamed_variants"
    by (simp add: ex_variants_def ex_renamed_variants_def)
  from variant_name_unused [OF a, of ex_host ex_board ex_settings] a b show ?thesis
    by simp
qed

text \<open>
  C10. An empty list of variants is treated as an absent one. Replacing, in the boards of
  the configuration, every empty list of variants by an absent key does not change the run
  of \<^verbatim>\<open>main\<close>; \<^verbatim>\<open>build_board\<close> runs alike for a board with the empty list and for the board
  without variants; and in both cases the BOM loops start one command per specification
  and format, without the selector argument, for the file \<^verbatim>\<open>{board}-{file_id}.{format}\<close>.
\<close>

theorem empty_variants_as_absent:
  "main h \<lparr>config_settings = settings,
           config_boards = map (\<lambda>raw. if yaml_variants raw = Some []
                                        then raw\<lparr>yaml_variants := None\<rparr> else raw) boards\<rparr>
     = main h \<lparr>config_settings = settings, config_boards = boards\<rparr> \<and>
   build_board h (board\<lparr>variants := Some []\<rparr>) settings
     = build_board h (board\<lparr>variants := None\<rparr>) settings \<and>
   build_board_kibom h (board\<lparr>variants := Some []\<rparr>) settings board_bom_xml
     = for_each (outputs_kibom settings) (\<lambda>bom.
         for_each (bom_formats bom) (\<lambda>format.
           check_call h
             [''kibom'', ''--cfg'', bom_ini bom, ''-d'',
              path_str (resolve h (path_parent (path_join (assembly_dir board)
                (py_str (name board) @ ''-'' @ bom_file_id bom @ ''.'' @ format)))),
              path_str board_bom_xml,
              path_name (path_join (assembly_dir board)
                (py_str (name board) @ ''-'' @ bom_file_id bom @ ''.'' @ format))])) \<and>
   build_board_kibom h (board\<lparr>variants := None\<rparr>) settings board_bom_xml
     = build_board_kibom h (board\<lparr>variants := Some []\<rparr>) settings board_bom_xml"
proof -
  have d: "map variant_variant (variants_or_default (b\<lparr>variants := Some []\<rparr>))
           = map variant_variant (variants_or_default (b\<lparr>variants := None\<rparr>))" for b :: Board
    by (simp add: variants_or_default_def)
  have bb: "build_board h (b\<lparr>variants := Some []\<rparr>) settings
     = build_board h (b\<lparr>variants := None\<rparr>) settings" for b
    using d by (rule build_board_variants_cong)
  have body: "(case from_yaml (if yaml_variants raw = Some []
                              then raw\<lparr>yaml_variants := None\<rparr> else raw) settings of
                 Inl e \<Rightarrow> (Some e, w)
               | Inr b \<Rightarrow> build_board h b settings w)
              = (case from_yaml raw settings of
                   Inl e \<Rightarrow> (Some e, w)
                 | Inr b \<Rightarrow> build_board h b settings w)" for raw w
  proof (cases "yaml_variants raw = Some []")
    case True
    then have r: "raw = raw\<lparr>yaml_variants := Some []\<rparr>" by simp
    have "from_yaml raw settings =
            (case from_yaml raw settings of
               Inl e \<Rightarrow> Inl e
             | Inr b \<Rightarrow> Inr (b\<lparr>variants := Some []\<rparr>))"
      by (subst r) (rule from_yaml_variants)
    then show ?thesis
    proof (cases "from_yaml raw settings")
      case (Inl e)
      with True show ?thesis by (simp add: from_yaml_variants)
    next
      case (Inr b)
      with \<open>from_yaml raw settings =
            (case from_yaml raw settings of
               Inl e \<Rightarrow> Inl e
             | Inr b \<Rightarrow> Inr (b\<lparr>variants := Some []\<rparr>))\<close>
      have eq: "b\<lparr>variants := Some []\<rparr> = b" by simp
      have "build_board h (b\<lparr>variants := None\<rparr>) settings w
            = build_board h (b\<lparr>variants := Some []\<rparr>) settings w"
        by (simp only: bb)
      also have "\<dots> = build_board h b settings w"
        by (simp only: eq)
      finally show ?thesis
        using True Inr by (simp add: from_yaml_variants)
    qed
  next
    case False
    then show ?thesis by simp
  qed
  have "main h \<lparr>config_settings = settings,
           config_boards = map (\<lambda>raw. if yaml_variants raw = Some []
                                        then raw\<lparr>yaml_variants := None\<rparr> else raw) boards\<rparr>
     = main h \<lparr>config_settings = settings, config_boards = boards\<rparr>"
    by (simp only: main_boards for_each_map body)
  moreover have "build_board_kibom h (board\<lparr>variants := Some []\<rparr>) settings board_bom_xml
     = for_each (outputs_kibom settings) (\<lambda>bom.
         for_each (bom_formats bom) (\<lambda>format.
           check_call h
             [''kibom'', ''--cfg'', bom_ini bom, ''-d'',
              path_str (resolve h (path_parent (path_join (assembly_dir board)
                (py_str (name board) @ ''-'' @ bom_file_id bom @ ''.'' @ format)))),
              path_str board_bom_xml,
              path_name (path_join (assembly_dir board)
                (py_str (name board) @ ''-'' @ bom_file_id bom @ ''.'' @ format))]))"
    by (simp add: build_board_kibom_def variants_or_default_def run_kibom_def run_kibom_cmd_def
        bom_filename_def Let_def for_each_single)
  moreover have "build_board_kibom h (board\<lparr>variants := None\<rparr>) settings board_bom_xml
     = build_board_kibom h (board\<lparr>variants := Some []\<rparr>) settings board_bom_xml"
    by (rule kibom_variants_cong) (simp only: d)
  ultimately show ?thesis using bb by blast
qed

text \<open>The board \<^verbatim>\<open>W\<close> with an empty list of variants and without the key.\<close>

theorem empty_variants_as_absent_witness:
  "main ex_host \<lparr>config_settings = ex_settings,
                 config_boards = [ex_board_yaml\<lparr>yaml_variants := None\<rparr>]\<rparr> ex_world
     = main ex_host \<lparr>config_settings = ex_settings,
                     config_boards = [ex_board_yaml\<lparr>yaml_variants := Some []\<rparr>]\<rparr> ex_world \<and>
   trace (snd (build_board_kibom ex_host (ex_board\<lparr>variants := Some []\<rparr>) ex_settings
                 (Path ''build/W/W-bom.xml'') ex_world))
     = [([''kibom'', ''--cfg'', ''bom.ini'', ''-d'', ''/work/out/W'', ''build/W/W-bom.xml'',
          ''W-bom.csv''], 0),
        ([''kibom'', ''--cfg'', ''bom.ini'', ''-d'', ''/work/out/W'', ''build/W/W-bom.xml'',
          ''W-bom.html''], 0)]"
proof -
  have t: "trace (snd (build_board_kibom ex_host (ex_board\<lparr>variants := Some []\<rparr>) ex_settings
                 (Path ''build/W/W-bom.xml'') ex_world))
     = [([''kibom'', ''--cfg'', ''bom.ini'', ''-d'', ''/work/out/W'', ''build/W/W-bom.xml'',
          ''W-bom.csv''], 0),
        ([''kibom'', ''--cfg'', ''bom.ini'', ''-d'', ''/work/out/W'', ''build/W/W-bom.xml'',
          ''W-bom.html''], 0)]"
    by code_simp
  from empty_variants_as_absent
         [of ex_host ex_settings "[ex_board_yaml\<lparr>yaml_variants := Some []\<rparr>]"]
  have "main ex_host \<lparr>config_settings = ex_settings,
                 config_boards = [ex_board_yaml\<lparr>yaml_variants := None\<rparr>]\<rparr>
     = main ex_host \<lparr>config_settings = ex_settings,
                     config_boards = [ex_board_yaml\<lparr>yaml_variants := Some []\<rparr>]\<rparr>"
    by simp
  with t show ?thesis by simp
qed

subsection \<open>Failure\<close>

lemma followsI:
  assumes "\<And>w w'. s w = (None, w') \<Longrightarrow> trace w' = trace w @ map (\<lambda>a. (a, 0)) cs"
    and "\<And>w e w'. s w = (Some e, w') \<Longrightarrow> aborted h cs w e w'"
  shows "follows h cs s"
  unfolding follows_def using assms by blast

lemma follows_None:
  "follows h cs s \<Longrightarrow> s w = (None, w') \<Longrightarrow> trace w' = trace w @ map (\<lambda>a. (a, 0)) cs"
  unfolding follows_def by blast

lemma follows_Some: "follows h cs s \<Longrightarrow> s w = (Some e, w') \<Longrightarrow> aborted h cs w e w'"
  unfolding follows_def by blast

lemma aborted_quiet:
  assumes "\<not> is_cpe e" "trace w' = trace w @ map (\<lambda>a. (a, 0)) cs"
  shows "aborted h cs w e w'"
  unfolding aborted_def using assms by (intro exI [of _ "length cs"]) simp

lemma aborted_prefix:
  assumes "aborted h cs1 w e w'"
  shows "aborted h (cs1 @ cs2) w e w'"
proof -
  from assms obtain k where k: "k \<le> length cs1"
    and c: "is_cpe e \<longrightarrow>
           k < length cs1 \<and>
           (\<exists>c. e = CalledProcessError c (cs1 ! k) \<and> c \<noteq> 0 \<and>
              trace w' = trace w @ map (\<lambda>a. (a, 0)) (take k cs1) @ [(cs1 ! k, c)] \<and>
              (\<exists>wb. trace wb = trace w @ map (\<lambda>a. (a, 0)) (take k cs1) \<and>
                 tool h (cs1 ! k) wb = (c, files w')))"
    and q: "\<not> is_cpe e \<longrightarrow> trace w' = trace w @ map (\<lambda>a. (a, 0)) (take k cs1)"
    unfolding aborted_def by blast
  show ?thesis
    unfolding aborted_def
  proof (intro exI [of _ k] conjI impI)
    show "k \<le> length (cs1 @ cs2)" using k by simp
  next
    assume "is_cpe e"
    with c show "k < length (cs1 @ cs2)" by simp
  next
    assume "is_cpe e"
    with c have "k < length cs1" by simp
    then have "(cs1 @ cs2) ! k = cs1 ! k" "take k (cs1 @ cs2) = take k cs1"
      by (simp_all add: nth_append)
    with c \<open>is_cpe e\<close>
    show "\<exists>c. e = CalledProcessError c ((cs1 @ cs2) ! k) \<and> c \<noteq> 0 \<and>
              trace w' = trace w @ map (\<lambda>a. (a, 0)) (take k (cs1 @ cs2))
                         @ [((cs1 @ cs2) ! k, c)] \<and>
              (\<exists>wb. trace wb = trace w @ map (\<lambda>a. (a, 0)) (take k (cs1 @ cs2)) \<and>
                 tool h ((cs1 @ cs2) ! k) wb = (c, files w'))"
      by simp
  next
    assume "\<not> is_cpe e"
    with q k show "trace w' = trace w @ map (\<lambda>a. (a, 0)) (take k (cs1 @ cs2))" by simp
  qed
qed

lemma aborted_suffix:
  assumes "aborted h cs2 w1 e w'" "trace w1 = trace w @ map (\<lambda>a. (a, 0)) cs1"
  shows "aborted h (cs1 @ cs2) w e w'"
proof -
  from assms(1) obtain k where k: "k \<le> length cs2"
    and c: "is_cpe e \<longrightarrow>
           k < length cs2 \<and>
           (\<exists>c. e = CalledProcessError c (cs2 ! k) \<and> c \<noteq> 0 \<and>
              trace w' = trace w1 @ map (\<lambda>a. (a, 0)) (take k cs2) @ [(cs2 ! k, c)] \<and>
              (\<exists>wb. trace wb = trace w1 @ map (\<lambda>a. (a, 0)) (take k cs2) \<and>
                 tool h (cs2 ! k) wb = (c, files w')))"
    and q: "\<not> is_cpe e \<longrightarrow> trace w' = trace w1 @ map (\<lambda>a. (a, 0)) (take k cs2)"
    unfolding aborted_def by blast
  have n: "(cs1 @ cs2) ! (length cs1 + k) = cs2 ! k"
    and t: "take (length cs1 + k) (cs1 @ cs2) = cs1 @ take k cs2"
    by (simp_all add: nth_append)
  show ?thesis
    unfolding aborted_def
  proof (intro exI [of _ "length cs1 + k"] conjI impI)
    show "length cs1 + k \<le> length (cs1 @ cs2)" using k by simp
  next
    assume "is_cpe e"
    with c show "length cs1 + k < length (cs1 @ cs2)" by simp
  next
    assume "is_cpe e"
    with c assms(2)
    show "\<exists>c. e = CalledProcessError c ((cs1 @ cs2) ! (length cs1 + k)) \<and> c \<noteq> 0 \<and>
              trace w' = trace w @ map (\<lambda>a. (a, 0)) (take (length cs1 + k) (cs1 @ cs2))
                         @ [((cs1 @ cs2) ! (length cs1 + k), c)] \<and>
              (\<exists>wb. trace wb = trace w @ map (\<lambda>a. (a, 0)) (take (length cs1 + k) (cs1 @ cs2)) \<and>
                 tool h ((cs1 @ cs2) ! (length cs1 + k)) wb = (c, files w'))"
      unfolding n t by simp
  next
    assume "\<not> is_cpe e"
    with q assms(2)
    show "trace w' = trace w @ map (\<lambda>a. (a, 0)) (take (length cs1 + k) (cs1 @ cs2))"
      unfolding t by simp
  qed
qed

text \<open>One statement after another.\<close>

lemma follows_seq:
  assumes "follows h cs1 s1" "follows h cs2 s2"
    and "\<And>w. s w = (case s1 w of (None, w1) \<Rightarrow> s2 w1 | (Some e, w1) \<Rightarrow> (Some e, w1))"
  shows "follows h (cs1 @ cs2) s"
proof (rule followsI)
  fix w w'
  assume a: "s w = (None, w')"
  obtain r1 w1 where s1: "s1 w = (r1, w1)" by (cases "s1 w")
  with a assms(3) [of w] have r1: "r1 = None" and s2: "s2 w1 = (None, w')"
    by (simp_all split: option.splits)
  from follows_None [OF assms(1) s1 [unfolded r1]] follows_None [OF assms(2) s2]
  show "trace w' = trace w @ map (\<lambda>a. (a, 0)) (cs1 @ cs2)" by simp
next
  fix w e w'
  assume a: "s w = (Some e, w')"
  obtain r1 w1 where s1: "s1 w = (r1, w1)" by (cases "s1 w")
  show "aborted h (cs1 @ cs2) w e w'"
  proof (cases r1)
    case None
    with a s1 assms(3) [of w] have s2: "s2 w1 = (Some e, w')" by simp
    from follows_Some [OF assms(2) s2] follows_None [OF assms(1) s1 [unfolded None]]
    show ?thesis by (rule aborted_suffix)
  next
    case (Some e1)
    with a s1 assms(3) [of w] have "e1 = e" "w1 = w'" by simp_all
    with s1 Some have "s1 w = (Some e, w')" by simp
    from follows_Some [OF assms(1) this] show ?thesis by (rule aborted_prefix)
  qed
qed

lemma follows_quiet:
  assumes "\<And>w r w'. s w = (r, w') \<Longrightarrow> trace w' = trace w"
    and "\<And>w e w'. s w = (Some e, w') \<Longrightarrow> \<not> is_cpe e"
  shows "follows h [] s"
proof (rule followsI)
  fix w w'
  assume "s w = (None, w')"
  from assms(1) [OF this] show "trace w' = trace w @ map (\<lambda>a. (a, 0)) []" by simp
next
  fix w e w'
  assume a: "s w = (Some e, w')"
  from assms(2) [OF a] assms(1) [OF a] show "aborted h [] w e w'"
    by (intro aborted_quiet) simp_all
qed

lemma follows_check_call: "follows h [cmd] (check_call h cmd)"
proof (rule followsI)
  fix w w'
  assume "check_call h cmd w = (None, w')"
  then show "trace w' = trace w @ map (\<lambda>a. (a, 0)) [cmd]"
    by (auto simp: check_call_def split: prod.splits if_splits)
next
  fix w e w'
  assume a: "check_call h cmd w = (Some e, w')"
  obtain c fs' where t: "tool h cmd w = (c, fs')" by (cases "tool h cmd w")
  with a have c: "c \<noteq> 0" and e: "e = CalledProcessError c cmd"
    and w': "w' = \<lparr>files = fs', trace = trace w @ [(cmd, c)]\<rparr>"
    by (auto simp: check_call_def split: if_splits)
  show "aborted h [cmd] w e w'"
  proof -
    have "\<exists>wb. trace wb = trace w \<and> tool h cmd wb = (c, files w')"
      using t w' by (intro exI [of _ w]) simp
    then show ?thesis
      unfolding aborted_def using c e w' by (intro exI [of _ "0::nat"]) (simp add: is_cpe_def)
  qed
qed

text \<open>Loops and sequences of statements.\<close>

lemma follows_Nil: "follows h [] (for_each [] body)"
  by (rule follows_quiet) auto

lemma follows_Cons:
  assumes "follows h cs (body x)" "follows h css (for_each xs body)"
  shows "follows h (cs @ css) (for_each (x # xs) body)"
  using assms by (rule follows_seq) (simp split: prod.splits option.splits)

lemma follows_for_each:
  assumes "\<And>x. x \<in> set xs \<Longrightarrow> follows h (g x) (body x)"
  shows "follows h (concat (map g xs)) (for_each xs body)"
  using assms
proof (induction xs)
  case Nil
  have "follows h [] (for_each [] body)" by (rule follows_Nil)
  then show ?case by (simp only: list.map concat.simps)
next
  case (Cons x xs)
  have "follows h (g x @ concat (map g xs)) (for_each (x # xs) body)"
    by (rule follows_Cons) (simp_all add: Cons)
  then show ?case by (simp only: list.map concat.simps)
qed

lemma follows_run_all_Nil: "follows h [] (run_all [])"
  unfolding run_all_def by (rule follows_Nil)

lemma follows_run_all_Cons:
  assumes "follows h cs s" "follows h css (run_all steps)"
  shows "follows h (cs @ css) (run_all (s # steps))"
  using assms unfolding run_all_def by (rule follows_Cons)

text \<open>The statements that start no process raise no exception of a process.\<close>

lemma open_r_not_cpe: "open_r fs p = Inl e \<Longrightarrow> \<not> is_cpe e"
  by (auto simp: open_r_def is_cpe_def split: option.splits node.splits)

lemma open_w_not_cpe: "open_w p c fs = Inl e \<Longrightarrow> \<not> is_cpe e"
  by (auto simp: open_w_def is_cpe_def split: option.splits node.splits)

lemma mkdir_exist_ok_not_cpe: "mkdir_exist_ok p fs = (Some e, fs') \<Longrightarrow> \<not> is_cpe e"
  by (auto simp: mkdir_exist_ok_def mkdir_def is_cpe_def
      split: option.splits node.splits sum.splits if_splits)

lemma makedirs_rev_not_cpe: "makedirs_rev r cs fs = (Some e, fs') \<Longrightarrow> \<not> is_cpe e"
proof (induction cs arbitrary: e fs')
  case Nil
  then show ?case by (simp add: mkdir_exist_ok_not_cpe)
next
  case (Cons c heads)
  show ?case
  proof (cases "(r \<noteq> [] \<or> heads \<noteq> []) \<and> fs (Parsed r (rev heads)) = None")
    case False
    have "makedirs_rev r (c # heads) fs = mkdir_exist_ok (Parsed r (rev (c # heads))) fs"
      unfolding makedirs_rev.simps using False by (rule if_not_P)
    with Cons.prems have "mkdir_exist_ok (Parsed r (rev (c # heads))) fs = (Some e, fs')"
      by (simp only:)
    then show ?thesis by (rule mkdir_exist_ok_not_cpe)
  next
    case True
    obtain r1 fs1 where m: "makedirs_rev r heads fs = (r1, fs1)"
      by (cases "makedirs_rev r heads fs")
    have u: "makedirs_rev r (c # heads) fs =
          (case makedirs_rev r heads fs of
              (None, fs') \<Rightarrow> mkdir_exist_ok (Parsed r (rev (c # heads))) fs'
            | (Some FileExistsError, fs') \<Rightarrow> mkdir_exist_ok (Parsed r (rev (c # heads))) fs'
            | (Some e, fs') \<Rightarrow> (Some e, fs'))"
      unfolding makedirs_rev.simps using True by (rule if_P)
    show ?thesis
    proof (cases "r1 = None \<or> r1 = Some FileExistsError")
      case True
      with Cons.prems m
      have "mkdir_exist_ok (Parsed r (rev (c # heads))) fs1 = (Some e, fs')"
        unfolding u by auto
      then show ?thesis by (rule mkdir_exist_ok_not_cpe)
    next
      case False
      then obtain e1 where e1: "r1 = Some e1" "e1 \<noteq> FileExistsError" by auto
      with Cons.prems m have "e = e1"
        unfolding u by (simp split: error.splits)
      with Cons.IH m e1 show ?thesis by simp
    qed
  qed
qed

lemma iterdir_not_cpe: "iterdir fs d = Inl e \<Longrightarrow> \<not> is_cpe e"
  by (auto simp: iterdir_def is_cpe_def split: option.splits node.splits)

lemma zip_loop_not_cpe: "zip_loop fs ps archive = (Some e, archive') \<Longrightarrow> \<not> is_cpe e"
  by (induction ps arbitrary: archive)
    (auto simp: zip_write_def is_cpe_def split: option.splits node.splits sum.splits)

lemma subscript_not_cpe: "subscript js key = Inl e \<Longrightarrow> \<not> is_cpe e"
  by (auto simp: subscript_def is_cpe_def split: json.splits option.splits)

lemma read_version_not_cpe: "read_version p w = Inl e \<Longrightarrow> \<not> is_cpe e"
  by (auto simp: read_version_def is_cpe_def
      dest: open_r_not_cpe subscript_not_cpe
      split: sum.splits content.splits option.splits)

lemma csv_reader_not_cpe: "csv_reader fs p = Inl e \<Longrightarrow> \<not> is_cpe e"
  by (auto simp: csv_reader_def is_cpe_def split: option.splits node.splits content.splits)

lemma PdfReader_not_cpe: "PdfReader fs p = Inl e \<Longrightarrow> \<not> is_cpe e"
  by (auto simp: PdfReader_def is_cpe_def dest: open_r_not_cpe
      split: sum.splits content.splits)

lemma from_yaml_not_cpe: "from_yaml board settings = Inl e \<Longrightarrow> \<not> is_cpe e"
  by (auto simp: from_yaml_def pathlib_Path_def with_suffix_def is_cpe_def Let_def
      split: option.splits sum.splits yaml.splits if_splits)

lemma follows_read_version:
  "follows h [] (\<lambda>w. (case read_version p w of
                         Inl e \<Rightarrow> (Some e, w)
                       | Inr board_version \<Rightarrow> (None, w)))"
  by (rule follows_quiet) (auto dest: read_version_not_cpe split: sum.splits)

lemma follows_makedirs: "follows h [] (makedirs p)"
  by (rule follows_quiet)
    (auto simp: makedirs_def dest: makedirs_rev_not_cpe split: prod.splits)

lemma follows_mk_gerber_zip: "follows h [] (mk_gerber_zip gerber_dir gerber_zip)"
  by (rule follows_quiet)
    (auto simp: mk_gerber_zip_def
      dest: open_w_not_cpe iterdir_not_cpe zip_loop_not_cpe
      split: sum.splits prod.splits)

lemma follows_mk_pos_jlcpcb: "follows h [] (mk_pos_jlcpcb board settings pos_path jlcpcb_path)"
  by (rule follows_quiet)
    (auto simp: mk_pos_jlcpcb_def Let_def
      dest: open_r_not_cpe open_w_not_cpe csv_reader_not_cpe
      split: sum.splits)

text \<open>The compound statements.\<close>

lemma follows_mk_gerber:
  "follows h
     [[''kicad-cli'', ''pcb'', ''export'', ''gerbers'', ''-o'', path_str gerber_dir,
       ''--use-drill-file-origin'', path_str board_pcb],
      [''kicad-cli'', ''pcb'', ''export'', ''drill'', ''-o'',
       path_str gerber_dir @ ''/'', path_str board_pcb]]
     (mk_gerber h board_pcb gerber_dir)"
proof -
  have "follows h
     ([] @ [[''kicad-cli'', ''pcb'', ''export'', ''gerbers'', ''-o'', path_str gerber_dir,
             ''--use-drill-file-origin'', path_str board_pcb]]
      @ [[''kicad-cli'', ''pcb'', ''export'', ''drill'', ''-o'',
          path_str gerber_dir @ ''/'', path_str board_pcb]] @ [])
     (mk_gerber h board_pcb gerber_dir)"
    unfolding mk_gerber_def
    by (intro follows_run_all_Cons follows_run_all_Nil follows_makedirs follows_check_call)
  then show ?thesis by simp
qed

lemma follows_build_board_kibom:
  "follows h (kibom_cmds h board settings xml) (build_board_kibom h board settings xml)"
proof -
  have "follows h (concat (map (\<lambda>cmd. [cmd]) (kibom_cmds h board settings xml)))
          (for_each (kibom_cmds h board settings xml) (check_call h))"
    by (rule follows_for_each) (rule follows_check_call)
  then show ?thesis by (simp add: build_board_kibom_cmds)
qed

text \<open>The loop of \<^verbatim>\<open>mk_fab_pdf\<close>: each turn starts one export and reads its document.\<close>

lemma fab_loop_for_each:
  "(case fab_loop h board fabs writer w of
      (Inl e, w') \<Rightarrow> (Some e, w')
    | (Inr pages, w') \<Rightarrow> (None, w'))
   = for_each fabs (\<lambda>fab w.
       (case check_call h (fab_cmd board fab) w of
          (Some e, w') \<Rightarrow> (Some e, w')
        | (None, w') \<Rightarrow>
            (case PdfReader (files w') (fab_pdf_file board fab) of
               Inl e \<Rightarrow> (Some e, w')
             | Inr reader \<Rightarrow> (None, w')))) w"
proof (induction fabs arbitrary: writer w)
  case Nil
  show ?case by simp
next
  case (Cons fab fabs)
  obtain r1 w1 where c: "check_call h (fab_cmd board fab) w = (r1, w1)"
    by (cases "check_call h (fab_cmd board fab) w")
  show ?case
  proof (cases r1)
    case (Some e)
    with c show ?thesis by simp
  next
    case None
    show ?thesis
    proof (cases "PdfReader (files w1) (fab_pdf_file board fab)")
      case (Inl e)
      with c None show ?thesis by simp
    next
      case (Inr reader)
      with c None Cons.IH [of "writer @ reader" w1] show ?thesis by simp
    qed
  qed
qed

lemma follows_fab_turn:
  "follows h [fab_cmd board fab] (\<lambda>w.
       (case check_call h (fab_cmd board fab) w of
          (Some e, w') \<Rightarrow> (Some e, w')
        | (None, w') \<Rightarrow>
            (case PdfReader (files w') (fab_pdf_file board fab) of
               Inl e \<Rightarrow> (Some e, w')
             | Inr reader \<Rightarrow> (None, w'))))"
proof -
  have q: "follows h [] (\<lambda>w'. (case PdfReader (files w') (fab_pdf_file board fab) of
               Inl e \<Rightarrow> (Some e, w')
             | Inr reader \<Rightarrow> (None, w')))"
    by (rule follows_quiet) (auto dest: PdfReader_not_cpe split: sum.splits)
  have "follows h ([fab_cmd board fab] @ []) (\<lambda>w.
       (case check_call h (fab_cmd board fab) w of
          (Some e, w') \<Rightarrow> (Some e, w')
        | (None, w') \<Rightarrow>
            (case PdfReader (files w') (fab_pdf_file board fab) of
               Inl e \<Rightarrow> (Some e, w')
             | Inr reader \<Rightarrow> (None, w'))))"
    by (rule follows_seq [OF follows_check_call q])
      (simp split: prod.splits option.splits)
  then show ?thesis by simp
qed

lemma follows_mk_fab_pdf:
  "follows h (map (fab_cmd board) (outputs_fab settings)) (mk_fab_pdf h board settings p)"
proof -
  let ?loop = "\<lambda>w. (case fab_loop h board (outputs_fab settings) [] w of
                      (Inl e, w') \<Rightarrow> (Some e, w')
                    | (Inr pages, w') \<Rightarrow> (None, w'))"
  have "follows h (concat (map (\<lambda>fab. [fab_cmd board fab]) (outputs_fab settings))) ?loop"
    unfolding fab_loop_for_each by (rule follows_for_each) (rule follows_fab_turn)
  then have l: "follows h (map (fab_cmd board) (outputs_fab settings)) ?loop"
    by (simp add: comp_def)
  show ?thesis
  proof (rule followsI)
    fix w w'
    assume a: "mk_fab_pdf h board settings p w = (None, w')"
    then obtain writer w1 where f: "fab_loop h board (outputs_fab settings) [] w = (Inr writer, w1)"
      and t: "trace w' = trace w1"
      by (auto simp: mk_fab_pdf_def split: prod.splits sum.splits)
    from f have "?loop w = (None, w1)" by simp
    from follows_None [OF l this] t
    show "trace w' = trace w @ map (\<lambda>a. (a, 0)) (map (fab_cmd board) (outputs_fab settings))"
      by simp
  next
    fix w e w'
    assume a: "mk_fab_pdf h board settings p w = (Some e, w')"
    obtain r1 w1 where f: "fab_loop h board (outputs_fab settings) [] w = (r1, w1)"
      by (cases "fab_loop h board (outputs_fab settings) [] w")
    show "aborted h (map (fab_cmd board) (outputs_fab settings)) w e w'"
    proof (cases r1)
      case (Inl e1)
      with a f have "?loop w = (Some e, w')" by (simp add: mk_fab_pdf_def)
      from follows_Some [OF l this] show ?thesis .
    next
      case (Inr writer)
      with f have "?loop w = (None, w1)" by simp
      from follows_None [OF l this]
      have t: "trace w1 = trace w @ map (\<lambda>a. (a, 0)) (map (fab_cmd board) (outputs_fab settings))" .
      from a f Inr have "open_w p (Pdf writer) (files w1) = Inl e" and "w' = w1"
        by (auto simp: mk_fab_pdf_def split: sum.splits)
      with t show ?thesis by (intro aborted_quiet open_w_not_cpe) simp_all
    qed
  qed
qed

lemma follows_build_board:
  "follows h (build_board_plan h board settings) (build_board h board settings)"
proof -
  have "follows h
     ([] @ [] @ []
      @ [[''kicad-cli'', ''sch'', ''export'', ''pdf'', ''-o'',
          path_str (path_join (assembly_dir board) (py_str (name board) @ ''-schematic.pdf'')),
          path_str (kicad_sch board)]]
      @ [[''kicad-cli'', ''pcb'', ''export'', ''gerbers'', ''-o'',
          path_str (gerber_dir_of board), ''--use-drill-file-origin'',
          path_str (kicad_pcb board)],
         [''kicad-cli'', ''pcb'', ''export'', ''drill'', ''-o'',
          path_str (gerber_dir_of board) @ ''/'', path_str (kicad_pcb board)]]
      @ []
      @ [[''kicad-cli'', ''sch'', ''export'', ''python-bom'', ''-o'',
          path_str (board_bom_xml_of board), path_str (kicad_sch board)]]
      @ kibom_cmds h board settings (board_bom_xml_of board)
      @ map (fab_cmd board) (outputs_fab settings)
      @ [[''kicad-cli'', ''pcb'', ''export'', ''step'', ''--subst-models'', ''--output'',
          path_str (path_join (assembly_dir board) (py_str (name board) @ ''.step'')),
          path_str (kicad_pcb board)]]
      @ [[''kicad-cli'', ''pcb'', ''export'', ''pos'', ''--units'', ''mm'', ''--output'',
          path_str (pos_path_of board), path_str (kicad_pcb board), ''--format'',
          drop 1 (path_suffix (pos_path_of board))]]
      @ [] @ [])
     (build_board h board settings)"
    unfolding build_board_def build_board_steps_def mk_schematic_pdf_def mk_bom_xml_def
      mk_step_def mk_pos_def
    by (intro follows_run_all_Cons follows_run_all_Nil follows_read_version follows_makedirs
        follows_check_call follows_mk_gerber follows_mk_gerber_zip follows_build_board_kibom
        follows_mk_fab_pdf follows_mk_pos_jlcpcb)
  then show ?thesis
    by (simp add: build_board_plan_def gerber_dir_of_def board_bom_xml_of_def pos_path_of_def)
qed

lemma follows_main: "follows h (main_plan h config) (main h config)"
  unfolding main_plan_def main_def
proof (rule follows_for_each)
  fix board
  show "follows h
          (case from_yaml board (config_settings config) of
             Inl x \<Rightarrow> []
           | Inr b \<Rightarrow> build_board_plan h b (config_settings config))
          (\<lambda>w. case from_yaml board (config_settings config) of
                 Inl e \<Rightarrow> (Some e, w)
               | Inr b \<Rightarrow> build_board h b (config_settings config) w)"
  proof (cases "from_yaml board (config_settings config)")
    case (Inl e)
    have "follows h [] (\<lambda>w. (Some e, w))"
      using from_yaml_not_cpe [OF Inl] by (intro follows_quiet) auto
    with Inl show ?thesis by simp
  next
    case (Inr b)
    with follows_build_board [of h b "config_settings config"] show ?thesis by simp
  qed
qed

lemma aborted_failed_process:
  assumes "aborted h cs w e w'"
    and "(cmd, c) \<in> set (drop (length (trace w)) (trace w'))" "c \<noteq> 0"
  shows "e = CalledProcessError c cmd \<and> last (trace w') = (cmd, c)"
proof -
  from assms(1) obtain k where k: "k \<le> length cs"
    and p: "is_cpe e \<longrightarrow>
           k < length cs \<and>
           (\<exists>c. e = CalledProcessError c (cs ! k) \<and> c \<noteq> 0 \<and>
              trace w' = trace w @ map (\<lambda>a. (a, 0)) (take k cs) @ [(cs ! k, c)] \<and>
              (\<exists>wb. trace wb = trace w @ map (\<lambda>a. (a, 0)) (take k cs) \<and>
                 tool h (cs ! k) wb = (c, files w')))"
    and q: "\<not> is_cpe e \<longrightarrow> trace w' = trace w @ map (\<lambda>a. (a, 0)) (take k cs)"
    unfolding aborted_def by blast
  show ?thesis
  proof (cases "is_cpe e")
    case False
    with q assms(2,3) show ?thesis by auto
  next
    case True
    with p obtain c0 where e: "e = CalledProcessError c0 (cs ! k)"
      and t: "trace w' = trace w @ map (\<lambda>a. (a, 0)) (take k cs) @ [(cs ! k, c0)]"
      by blast
    from assms(2,3) have "(cmd, c) = (cs ! k, c0)" unfolding t by auto
    with e t show ?thesis by simp
  qed
qed

text \<open>The world a raising compound statement leaves behind.\<close>

lemma check_call_world: "check_call h cmd w = (r, w1) \<Longrightarrow> w1 = after_processes h [cmd] w"
  by (auto simp: check_call_def split: prod.splits)

lemma mk_gerber_Some:
  assumes "mk_gerber h board_pcb gerber_dir w = (Some e, w')"
  shows "makedirs gerber_dir w = (Some e, w') \<or>
         (\<exists>w1. makedirs gerber_dir w = (None, w1) \<and>
            (check_call h [''kicad-cli'', ''pcb'', ''export'', ''gerbers'', ''-o'',
                           path_str gerber_dir, ''--use-drill-file-origin'',
                           path_str board_pcb] w1 = (Some e, w') \<or>
             (\<exists>w2. check_call h [''kicad-cli'', ''pcb'', ''export'', ''gerbers'', ''-o'',
                                  path_str gerber_dir, ''--use-drill-file-origin'',
                                  path_str board_pcb] w1 = (None, w2) \<and>
                check_call h [''kicad-cli'', ''pcb'', ''export'', ''drill'', ''-o'',
                              path_str gerber_dir @ ''/'', path_str board_pcb] w2
                = (Some e, w'))))"
  using assms
  by (auto simp: mk_gerber_def run_all_def split: prod.splits option.splits)

lemma fab_loop_Inr:
  "fab_loop h board fabs writer w = (Inr pages, w') \<Longrightarrow>
     w' = after_processes h (map (fab_cmd board) fabs) w"
proof (induction fabs arbitrary: writer w)
  case Nil
  then show ?case by simp
next
  case (Cons fab fabs)
  obtain r1 w1 where c: "check_call h (fab_cmd board fab) w = (r1, w1)"
    by (cases "check_call h (fab_cmd board fab) w")
  from check_call_world [OF c] have w1: "w1 = after_processes h [fab_cmd board fab] w" .
  from Cons.prems c obtain reader where
    "fab_loop h board fabs (writer @ reader) w1 = (Inr pages, w')"
    by (auto split: option.splits sum.splits)
  from Cons.IH [OF this] show ?case
    unfolding w1 by simp
qed

lemma fab_loop_Inl:
  "fab_loop h board fabs writer w = (Inl e, w') \<Longrightarrow>
     \<exists>k. 0 < k \<and> k \<le> length fabs \<and>
       w' = after_processes h (map (fab_cmd board) (take k fabs)) w \<and>
       ((\<exists>c. e = CalledProcessError c (fab_cmd board (fabs ! (k - 1))) \<and> c \<noteq> 0) \<or>
        PdfReader (files w') (fab_pdf_file board (fabs ! (k - 1))) = Inl e)"
proof (induction fabs arbitrary: writer w)
  case Nil
  then show ?case by simp
next
  case (Cons fab fabs)
  obtain r1 w1 where c: "check_call h (fab_cmd board fab) w = (r1, w1)"
    by (cases "check_call h (fab_cmd board fab) w")
  from check_call_world [OF c] have w1: "w1 = after_processes h [fab_cmd board fab] w" .
  show ?case
  proof (cases r1)
    case (Some e1)
    with Cons.prems c have "e1 = e" "w' = w1" by simp_all
    with c Some check_call_Some [of h "fab_cmd board fab" w e w1]
    have "\<exists>c. e = CalledProcessError c (fab_cmd board fab) \<and> c \<noteq> 0" by blast
    with \<open>w' = w1\<close> w1 show ?thesis
      by (intro exI [of _ "1::nat"]) simp
  next
    case None
    show ?thesis
    proof (cases "PdfReader (files w1) (fab_pdf_file board fab)")
      case (Inl e1)
      with Cons.prems c None have "e1 = e" "w' = w1" by simp_all
      with Inl w1 show ?thesis
        by (intro exI [of _ "1::nat"]) simp
    next
      case (Inr reader)
      with Cons.prems c None
      have "fab_loop h board fabs (writer @ reader) w1 = (Inl e, w')" by simp
      from Cons.IH [OF this] obtain k where k: "0 < k" "k \<le> length fabs"
        and a: "w' = after_processes h (map (fab_cmd board) (take k fabs)) w1"
        and d: "(\<exists>c. e = CalledProcessError c (fab_cmd board (fabs ! (k - 1))) \<and> c \<noteq> 0) \<or>
                PdfReader (files w') (fab_pdf_file board (fabs ! (k - 1))) = Inl e"
        by blast
      from k have n: "(fab # fabs) ! (Suc k - 1) = fabs ! (k - 1)"
        by (cases k) simp_all
      show ?thesis
      proof (intro exI [of _ "Suc k"] conjI)
        show "w' = after_processes h (map (fab_cmd board) (take (Suc k) (fab # fabs))) w"
          using a unfolding w1 by simp
        show "(\<exists>c. e = CalledProcessError c (fab_cmd board ((fab # fabs) ! (Suc k - 1))) \<and>
                   c \<noteq> 0) \<or>
              PdfReader (files w') (fab_pdf_file board ((fab # fabs) ! (Suc k - 1))) = Inl e"
          unfolding n using d .
      qed (use k in simp_all)
    qed
  qed
qed

lemma mk_fab_pdf_Some:
  assumes "mk_fab_pdf h board settings p w = (Some e, w')"
  shows "\<exists>k \<le> length (outputs_fab settings).
           w' = after_processes h (map (fab_cmd board) (take k (outputs_fab settings))) w \<and>
           ((0 < k \<and>
             ((\<exists>c. e = CalledProcessError c (fab_cmd board (outputs_fab settings ! (k - 1))) \<and>
                   c \<noteq> 0) \<or>
              PdfReader (files w') (fab_pdf_file board (outputs_fab settings ! (k - 1)))
              = Inl e)) \<or>
            (k = length (outputs_fab settings) \<and>
             (\<exists>pages. open_w p (Pdf pages) (files w') = Inl e)))"
proof -
  obtain r1 w1 where f: "fab_loop h board (outputs_fab settings) [] w = (r1, w1)"
    by (cases "fab_loop h board (outputs_fab settings) [] w")
  show ?thesis
  proof (cases r1)
    case (Inl e1)
    with assms f have "fab_loop h board (outputs_fab settings) [] w = (Inl e, w')"
      by (simp add: mk_fab_pdf_def)
    from fab_loop_Inl [OF this] show ?thesis by blast
  next
    case (Inr pages)
    with assms f have o: "open_w p (Pdf pages) (files w1) = Inl e" and "w' = w1"
      by (auto simp: mk_fab_pdf_def split: sum.splits)
    with fab_loop_Inr [OF f [unfolded Inr]] show ?thesis
      by (intro exI [of _ "length (outputs_fab settings)"]) auto
  qed
qed

text \<open>
  C3. No exception is caught and nothing is tried again, in \<^verbatim>\<open>main\<close>, in \<^verbatim>\<open>build_board\<close> and
  inside the statements of \<^verbatim>\<open>build_board\<close> (the Gerber export with its two commands, the
  BOM loops, the loop of the fabrication PDF):

  \<^item> In every run of \<^verbatim>\<open>main\<close>, a process that exits with a status other than 0 is the last
    process started, and \<^verbatim>\<open>main\<close> raises its exception.
  \<^item> A run of \<^verbatim>\<open>main\<close> that raises has started the commands of the complete run in their
    order, each once, up to some point, and nothing else. When the exception is that of a
    process, this process is the command at that point and the last one started, all
    processes before it have exited with status 0, and the file system is as the failing
    process has left it: no later statement of the board and no later board has written
    anything. When it is another exception, all processes started have exited with
    status 0.
  \<^item> Let the boards before a board be built, and let a statement of \<^verbatim>\<open>build_board\<close> for
    that board raise after the statements before it have returned. Then \<^verbatim>\<open>build_board\<close>
    raises the same exception and leaves the world as the failing statement left it, and so
    does \<^verbatim>\<open>main\<close>, whatever boards follow: they are not built.
  \<^item> Inside the Gerber export: it raises what the creation of the directory, the export of
    the Gerber files or the export of the drill files has raised, whichever is the first
    to raise, in the world that one has left.
  \<^item> Inside the fabrication PDF: when it raises, the world is the one the exports started
    so far have left, and nothing else has been written; the exception is that of the last
    export started, or that of reading the document of the last export started, or, all
    exports done, that of writing the merged document.
\<close>

theorem failure_aborts:
  "(main h config w = (r, w') \<longrightarrow>
      (\<forall>cmd c. (cmd, c) \<in> set (drop (length (trace w)) (trace w')) \<and> c \<noteq> 0 \<longrightarrow>
         r = Some (CalledProcessError c cmd) \<and> last (trace w') = (cmd, c))) \<and>
   (main h config w = (Some e, w') \<longrightarrow>
      (\<exists>k \<le> length (main_plan h config).
         (is_cpe e \<longrightarrow>
            k < length (main_plan h config) \<and>
            (\<exists>c. e = CalledProcessError c (main_plan h config ! k) \<and> c \<noteq> 0 \<and>
               trace w' = trace w @ map (\<lambda>a. (a, 0)) (take k (main_plan h config))
                          @ [(main_plan h config ! k, c)] \<and>
               (\<exists>wb. trace wb = trace w @ map (\<lambda>a. (a, 0)) (take k (main_plan h config)) \<and>
                  tool h (main_plan h config ! k) wb = (c, files w')))) \<and>
         (\<not> is_cpe e \<longrightarrow>
            trace w' = trace w @ map (\<lambda>a. (a, 0)) (take k (main_plan h config))))) \<and>
   (main h \<lparr>config_settings = settings, config_boards = built\<rparr> w0 = (None, w1) \<and>
    from_yaml raw settings = Inr board \<and>
    build_board_steps h board settings = pre @ s # post \<and>
    run_all pre w1 = (None, w2) \<and>
    s w2 = (Some e, w3) \<longrightarrow>
      build_board h board settings w1 = (Some e, w3) \<and>
      main h \<lparr>config_settings = settings, config_boards = built @ raw # later\<rparr> w0
        = (Some e, w3)) \<and>
   (mk_gerber h board_pcb gerber_dir w = (Some e, w') \<longrightarrow>
      makedirs gerber_dir w = (Some e, w') \<or>
      (\<exists>wa. makedirs gerber_dir w = (None, wa) \<and>
         (check_call h [''kicad-cli'', ''pcb'', ''export'', ''gerbers'', ''-o'',
                        path_str gerber_dir, ''--use-drill-file-origin'',
                        path_str board_pcb] wa = (Some e, w') \<or>
          (\<exists>wb. check_call h [''kicad-cli'', ''pcb'', ''export'', ''gerbers'', ''-o'',
                               path_str gerber_dir, ''--use-drill-file-origin'',
                               path_str board_pcb] wa = (None, wb) \<and>
             check_call h [''kicad-cli'', ''pcb'', ''export'', ''drill'', ''-o'',
                           path_str gerber_dir @ ''/'', path_str board_pcb] wb
             = (Some e, w'))))) \<and>
   (mk_fab_pdf h b fab_settings fab_filename w = (Some e, w') \<longrightarrow>
      (\<exists>k \<le> length (outputs_fab fab_settings).
         w' = after_processes h (map (fab_cmd b) (take k (outputs_fab fab_settings))) w \<and>
         ((0 < k \<and>
           ((\<exists>c. e = CalledProcessError c (fab_cmd b (outputs_fab fab_settings ! (k - 1))) \<and>
                 c \<noteq> 0) \<or>
            PdfReader (files w') (fab_pdf_file b (outputs_fab fab_settings ! (k - 1)))
            = Inl e)) \<or>
          (k = length (outputs_fab fab_settings) \<and>
           (\<exists>pages. open_w fab_filename (Pdf pages) (files w') = Inl e)))))"
proof (intro conjI impI)
  assume m: "main h config w = (r, w')"
  show "\<forall>cmd c. (cmd, c) \<in> set (drop (length (trace w)) (trace w')) \<and> c \<noteq> 0 \<longrightarrow>
         r = Some (CalledProcessError c cmd) \<and> last (trace w') = (cmd, c)"
  proof (intro allI impI)
    fix cmd c
    assume a: "(cmd, c) \<in> set (drop (length (trace w)) (trace w')) \<and> c \<noteq> 0"
    show "r = Some (CalledProcessError c cmd) \<and> last (trace w') = (cmd, c)"
    proof (cases r)
      case None
      with m have "trace w' = trace w @ map (\<lambda>a. (a, 0)) (main_plan h config)"
        by (intro follows_None [OF follows_main]) simp
      with a show ?thesis by auto
    next
      case (Some e)
      with m have "aborted h (main_plan h config) w e w'"
        by (intro follows_Some [OF follows_main]) simp
      from aborted_failed_process [OF this] a Some show ?thesis by simp
    qed
  qed
next
  assume "main h config w = (Some e, w')"
  then have "aborted h (main_plan h config) w e w'"
    by (rule follows_Some [OF follows_main])
  then show "\<exists>k \<le> length (main_plan h config).
         (is_cpe e \<longrightarrow>
            k < length (main_plan h config) \<and>
            (\<exists>c. e = CalledProcessError c (main_plan h config ! k) \<and> c \<noteq> 0 \<and>
               trace w' = trace w @ map (\<lambda>a. (a, 0)) (take k (main_plan h config))
                          @ [(main_plan h config ! k, c)] \<and>
               (\<exists>wb. trace wb = trace w @ map (\<lambda>a. (a, 0)) (take k (main_plan h config)) \<and>
                  tool h (main_plan h config ! k) wb = (c, files w')))) \<and>
         (\<not> is_cpe e \<longrightarrow>
            trace w' = trace w @ map (\<lambda>a. (a, 0)) (take k (main_plan h config)))"
    unfolding aborted_def .
next
  assume a: "main h \<lparr>config_settings = settings, config_boards = built\<rparr> w0 = (None, w1) \<and>
    from_yaml raw settings = Inr board \<and>
    build_board_steps h board settings = pre @ s # post \<and>
    run_all pre w1 = (None, w2) \<and>
    s w2 = (Some e, w3)"
  then have st: "build_board_steps h board settings = pre @ s # post"
    and pre: "run_all pre w1 = (None, w2)" and s: "s w2 = (Some e, w3)"
    by simp_all
  show b: "build_board h board settings w1 = (Some e, w3)"
    unfolding build_board_def st using pre s by (rule run_all_abort)
  from a b
  show "main h \<lparr>config_settings = settings, config_boards = built @ raw # later\<rparr> w0
        = (Some e, w3)"
    by (simp add: main_boards for_each_append)
next
  assume "mk_gerber h board_pcb gerber_dir w = (Some e, w')"
  then show "makedirs gerber_dir w = (Some e, w') \<or>
      (\<exists>wa. makedirs gerber_dir w = (None, wa) \<and>
         (check_call h [''kicad-cli'', ''pcb'', ''export'', ''gerbers'', ''-o'',
                        path_str gerber_dir, ''--use-drill-file-origin'',
                        path_str board_pcb] wa = (Some e, w') \<or>
          (\<exists>wb. check_call h [''kicad-cli'', ''pcb'', ''export'', ''gerbers'', ''-o'',
                               path_str gerber_dir, ''--use-drill-file-origin'',
                               path_str board_pcb] wa = (None, wb) \<and>
             check_call h [''kicad-cli'', ''pcb'', ''export'', ''drill'', ''-o'',
                           path_str gerber_dir @ ''/'', path_str board_pcb] wb
             = (Some e, w'))))"
    by (rule mk_gerber_Some)
next
  assume "mk_fab_pdf h b fab_settings fab_filename w = (Some e, w')"
  then show "\<exists>k \<le> length (outputs_fab fab_settings).
         w' = after_processes h (map (fab_cmd b) (take k (outputs_fab fab_settings))) w \<and>
         ((0 < k \<and>
           ((\<exists>c. e = CalledProcessError c (fab_cmd b (outputs_fab fab_settings ! (k - 1))) \<and>
                 c \<noteq> 0) \<or>
            PdfReader (files w') (fab_pdf_file b (outputs_fab fab_settings ! (k - 1)))
            = Inl e)) \<or>
          (k = length (outputs_fab fab_settings) \<and>
           (\<exists>pages. open_w fab_filename (Pdf pages) (files w') = Inl e)))"
    by (rule mk_fab_pdf_Some)
qed

text \<open>The Gerber export exits with status 1, in a run over two boards. The exception is that
  of the Gerber export, with its status and its command; the processes started are the
  schematic export, with status 0, and the Gerber export, which is the last; the file
  system is as the Gerber export has left it; no archive exists; the drill export, the
  later statements and the second board have started nothing.\<close>

theorem failure_aborts_witness:
  "fst (main ex_failing_host
          \<lparr>config_settings = ex_settings, config_boards = [ex_board_yaml, ex_board_yaml]\<rparr>
          ex_world)
   = Some (CalledProcessError 1
       [''kicad-cli'', ''pcb'', ''export'', ''gerbers'', ''-o'', ''build/W/W-gerber'',
        ''--use-drill-file-origin'', ''W.kicad_pcb'']) \<and>
   trace (snd (main ex_failing_host
          \<lparr>config_settings = ex_settings, config_boards = [ex_board_yaml, ex_board_yaml]\<rparr>
          ex_world))
   = [([''kicad-cli'', ''sch'', ''export'', ''pdf'', ''-o'', ''out/W/W-schematic.pdf'',
        ''W.kicad_sch''], 0),
      ([''kicad-cli'', ''pcb'', ''export'', ''gerbers'', ''-o'', ''build/W/W-gerber'',
        ''--use-drill-file-origin'', ''W.kicad_pcb''], 1)] \<and>
   files (snd (main ex_failing_host
          \<lparr>config_settings = ex_settings, config_boards = [ex_board_yaml, ex_board_yaml]\<rparr>
          ex_world)) (Path ''out/W/W-gerber.zip'') = None \<and>
   (\<exists>wb. trace wb
          = [([''kicad-cli'', ''sch'', ''export'', ''pdf'', ''-o'', ''out/W/W-schematic.pdf'',
               ''W.kicad_sch''], 0)] \<and>
      tool ex_failing_host
        [''kicad-cli'', ''pcb'', ''export'', ''gerbers'', ''-o'', ''build/W/W-gerber'',
         ''--use-drill-file-origin'', ''W.kicad_pcb''] wb
      = (1, files (snd (main ex_failing_host
          \<lparr>config_settings = ex_settings, config_boards = [ex_board_yaml, ex_board_yaml]\<rparr>
          ex_world))))"
proof -
  let ?config = "\<lparr>config_settings = ex_settings, config_boards = [ex_board_yaml, ex_board_yaml]\<rparr>"
  let ?steps = "build_board_steps ex_failing_host ex_board ex_settings"
  let ?sch = "[''kicad-cli'', ''sch'', ''export'', ''pdf'', ''-o'', ''out/W/W-schematic.pdf'',
               ''W.kicad_sch'']"
  let ?gerbers = "[''kicad-cli'', ''pcb'', ''export'', ''gerbers'', ''-o'', ''build/W/W-gerber'',
        ''--use-drill-file-origin'', ''W.kicad_pcb'']"
  let ?e = "CalledProcessError 1 ?gerbers"
  let ?w2 = "snd (run_all (take 4 ?steps) ex_world)"
  let ?w3 = "snd ((?steps ! 4) ?w2)"
  let ?plan = "main_plan ex_failing_host ?config"
  have h1: "main ex_failing_host \<lparr>config_settings = ex_settings, config_boards = []\<rparr> ex_world
            = (None, ex_world)"
    by (simp add: main_def)
  have h2: "from_yaml ex_board_yaml ex_settings = Inr ex_board"
    by (simp add: from_yaml_def pathlib_Path_def py_str_def Path_def splitroot_def
        with_suffix_def path_name_def path_suffix_def rfind_def ex_settings_def
        ex_board_yaml_def ex_board_def)
  have h3: "?steps = take 4 ?steps @ (?steps ! 4) # drop 5 ?steps"
    by (simp add: build_board_steps_def)
  have "fst (run_all (take 4 ?steps) ex_world) = None"
    by code_simp
  then have h4: "run_all (take 4 ?steps) ex_world = (None, ?w2)"
    by (rule returns_None)
  have "fst ((?steps ! 4) ?w2) = Some ?e"
    by code_simp
  then have h5: "(?steps ! 4) ?w2 = (Some ?e, ?w3)"
    by (rule returns_Some)
  have t: "trace ?w3 = [(?sch, 0), (?gerbers, 1)]"
    by code_simp
  have z: "files ?w3 (Path ''out/W/W-gerber.zip'') = None"
    by code_simp
  have t0: "trace ex_world = []"
    by (simp add: ex_world_def)
  note th = failure_aborts [of ex_failing_host ?config ex_world "Some ?e" ?w3 ?e
      ex_settings "[]" ex_world ex_world ex_board_yaml ex_board "take 4 ?steps" "?steps ! 4"
      "drop 5 ?steps" ?w2 ?w3 "[ex_board_yaml]"]
  from th [THEN conjunct2, THEN conjunct2, THEN conjunct1, THEN mp,
      OF conjI [OF h1 conjI [OF h2 conjI [OF h3 conjI [OF h4 h5]]]], THEN conjunct2]
  have m: "main ex_failing_host ?config ex_world = (Some ?e, ?w3)"
    by simp
  from th [THEN conjunct1, THEN mp, OF m, rule_format, of ?gerbers 1]
  have l: "last (trace ?w3) = (?gerbers, 1)"
    by (simp add: t t0)
  from th [THEN conjunct2, THEN conjunct1, THEN mp, OF m]
  obtain k c wb where e: "?e = CalledProcessError c (?plan ! k)"
    and tr: "trace ?w3 = trace ex_world @ map (\<lambda>a. (a, 0)) (take k ?plan) @ [(?plan ! k, c)]"
    and wb: "trace wb = trace ex_world @ map (\<lambda>a. (a, 0)) (take k ?plan)"
      "tool ex_failing_host (?plan ! k) wb = (c, files ?w3)"
    by (auto simp: is_cpe_def)
  from tr have "map (\<lambda>a. (a, 0)) (take k ?plan) = [(?sch, 0)]"
    unfolding t t0 by auto
  with wb e have "trace wb = [(?sch, 0)] \<and> tool ex_failing_host ?gerbers wb = (1, files ?w3)"
    by (simp add: t0)
  then have "\<exists>wb. trace wb = [(?sch, 0)] \<and>
                tool ex_failing_host ?gerbers wb = (1, files ?w3)" ..
  with m t z l show ?thesis by simp
qed


end
